theory Spec2Isabelle
  imports Main "HOL-Library.Word"
begin

unbundle bit_operations_syntax

section \<open>Python string operations used by asm.py\<close>

text \<open>
  Source text is a list of 8-bit characters, read as the code points 0 to 255.
  The functions below are the methods of Python's \<open>str\<close> that the assembler calls,
  restricted to the separators it calls them with.
\<close>

definition isspace :: "char \<Rightarrow> bool" where
  \<comment> \<open>the characters \<open>str.strip()\<close> and \<open>str.split()\<close> treat as whitespace\<close>
  "isspace c = (c \<in> set [CHR 0x09, CHR 0x0A, CHR 0x0B, CHR 0x0C, CHR 0x0D,
                          CHR 0x1C, CHR 0x1D, CHR 0x1E, CHR 0x1F, CHR 0x20,
                          CHR 0x85, CHR 0xA0])"

definition lstrip_by :: "(char \<Rightarrow> bool) \<Rightarrow> string \<Rightarrow> string" where
  "lstrip_by P s = dropWhile P s"

definition strip_by :: "(char \<Rightarrow> bool) \<Rightarrow> string \<Rightarrow> string" where
  "strip_by P s = rev (dropWhile P (rev (dropWhile P s)))"

definition strip :: "string \<Rightarrow> string" where
  \<comment> \<open>\<open>s.strip()\<close>\<close>
  "strip s = strip_by isspace s"

definition strip_chars :: "string \<Rightarrow> string \<Rightarrow> string" where
  \<comment> \<open>\<open>s.strip(chars)\<close>\<close>
  "strip_chars chars s = strip_by (\<lambda>c. c \<in> set chars) s"

definition lstrip_chars :: "string \<Rightarrow> string \<Rightarrow> string" where
  \<comment> \<open>\<open>s.lstrip(chars)\<close>\<close>
  "lstrip_chars chars s = lstrip_by (\<lambda>c. c \<in> set chars) s"

definition startswith :: "string \<Rightarrow> string \<Rightarrow> bool" where
  \<comment> \<open>\<open>s.startswith(p)\<close>\<close>
  "startswith s p = (take (length p) s = p)"

definition endswith :: "string \<Rightarrow> string \<Rightarrow> bool" where
  \<comment> \<open>\<open>s.endswith(p)\<close>\<close>
  "endswith s p = startswith (rev s) (rev p)"

fun str_find :: "string \<Rightarrow> string \<Rightarrow> nat option" where
  \<comment> \<open>\<open>s.find(sub)\<close>, with \<open>None\<close> for -1\<close>
  "str_find [] sub = (if sub = [] then Some 0 else None)"
| "str_find (c # cs) sub =
     (if startswith (c # cs) sub then Some 0 else map_option Suc (str_find cs sub))"

definition contains :: "string \<Rightarrow> string \<Rightarrow> bool" where
  \<comment> \<open>\<open>sub in s\<close>\<close>
  "contains sub s = (str_find s sub \<noteq> None)"

fun split_char :: "char \<Rightarrow> string \<Rightarrow> string list" where
  \<comment> \<open>\<open>s.split(sep)\<close> for a separator of one character\<close>
  "split_char sep [] = [[]]"
| "split_char sep (c # cs) =
     (let r = split_char sep cs in if c = sep then [] # r else (c # hd r) # tl r)"

definition split_once :: "char \<Rightarrow> string \<Rightarrow> string \<times> string" where
  \<comment> \<open>\<open>s.split(sep, 1)\<close> for a string that contains \<open>sep\<close>: the parts before and after the
      first occurrence\<close>
  "split_once sep s = (takeWhile (\<lambda>c. c \<noteq> sep) s, drop 1 (dropWhile (\<lambda>c. c \<noteq> sep) s))"

fun split_ws_acc :: "string \<Rightarrow> string \<Rightarrow> string list" where
  "split_ws_acc acc [] = (if acc = [] then [] else [rev acc])"
| "split_ws_acc acc (c # cs) =
     (if isspace c
      then (if acc = [] then split_ws_acc [] cs else rev acc # split_ws_acc [] cs)
      else split_ws_acc (c # acc) cs)"

definition split_ws :: "string \<Rightarrow> string list" where
  \<comment> \<open>\<open>s.split()\<close>: the maximal runs of non-whitespace\<close>
  "split_ws s = split_ws_acc [] s"

fun join :: "string \<Rightarrow> string list \<Rightarrow> string" where
  \<comment> \<open>\<open>sep.join(xs)\<close>\<close>
  "join sep [] = []"
| "join sep [x] = x"
| "join sep (x # y # ys) = x @ sep @ join sep (y # ys)"

definition replace_char :: "char \<Rightarrow> char \<Rightarrow> string \<Rightarrow> string" where
  \<comment> \<open>\<open>s.replace(a, b)\<close> for single characters\<close>
  "replace_char a b s = map (\<lambda>c. if c = a then b else c) s"

definition lower_char :: "char \<Rightarrow> char" where
  "lower_char c =
     (let n = (of_char c :: nat) in
      if (65 \<le> n \<and> n \<le> 90) \<or> (192 \<le> n \<and> n \<le> 222 \<and> n \<noteq> 215)
      then char_of (n + 32) else c)"

definition lower :: "string \<Rightarrow> string" where
  \<comment> \<open>\<open>s.lower()\<close>\<close>
  "lower s = map lower_char s"

function str_nat :: "nat \<Rightarrow> string" where
  \<comment> \<open>\<open>str(i)\<close> for a non-negative \<open>i\<close>, as the f-strings of \<open>_init_registers\<close> render it\<close>
  "str_nat n = (if n < 10 then [char_of (48 + n)]
                else str_nat (n div 10) @ [char_of (48 + n mod 10)])"
  by pat_completeness auto
termination
  by (relation "measure (\<lambda>n. n)") auto

declare str_nat.simps [simp del]

section \<open>Exceptions\<close>

datatype py_error =
    InvalidRegister string      \<comment> \<open>\<open>ValueError("Invalid register: ...")\<close>\<close>
  | ImmediateOutOfRange int     \<comment> \<open>\<open>ValueError("Immediate out of range: ...")\<close>\<close>
  | InvalidLiteral string       \<comment> \<open>the \<open>ValueError\<close> of \<open>int(...)\<close>\<close>
  | UnknownInstruction string   \<comment> \<open>\<open>ValueError("Unknown instruction: ...")\<close>\<close>
  | EntryPointNotFound string   \<comment> \<open>\<open>ValueError("Entry point '...' not found")\<close>\<close>
  | IndexError                  \<comment> \<open>a list index out of range\<close>
  | KeyError string             \<comment> \<open>a dictionary key that is absent\<close>
  | UnboundLocalError           \<comment> \<open>a local variable read before assignment\<close>
  | StructError                 \<comment> \<open>\<open>struct.error\<close>: a value that does not fit its format\<close>
  | OSError string              \<comment> \<open>\<open>open\<close> failed\<close>

definition and_then :: "'e + 'a \<Rightarrow> ('a \<Rightarrow> 'e + 'b) \<Rightarrow> 'e + 'b" where
  \<comment> \<open>sequencing: an exception raised by the first computation skips the second\<close>
  "and_then m f = (case m of Inl e \<Rightarrow> Inl e | Inr x \<Rightarrow> f x)"

definition list_index :: "'a list \<Rightarrow> int \<Rightarrow> py_error + nat" where
  \<comment> \<open>the position that \<open>xs[i]\<close> denotes: a negative index counts from the end\<close>
  "list_index xs i =
     (let n = int (length xs); j = (if i < 0 then n + i else i)
      in if 0 \<le> j \<and> j < n then Inr (nat j) else Inl IndexError)"

definition getitem :: "'a list \<Rightarrow> int \<Rightarrow> py_error + 'a" where
  \<comment> \<open>\<open>xs[i]\<close>\<close>
  "getitem xs i = and_then (list_index xs i) (\<lambda>j. Inr (xs ! j))"

definition setitem :: "'a list \<Rightarrow> int \<Rightarrow> 'a \<Rightarrow> py_error + 'a list" where
  \<comment> \<open>\<open>xs[i] = v\<close>\<close>
  "setitem xs i v = and_then (list_index xs i) (\<lambda>j. Inr (xs[j := v]))"

section \<open>Operand parser\<close>

definition digit_value :: "char \<Rightarrow> nat option" where
  \<comment> \<open>the value of a digit or letter, as \<open>int\<close> reads it in bases up to 36\<close>
  "digit_value c =
     (let n = (of_char c :: nat) in
      if 48 \<le> n \<and> n \<le> 57 then Some (n - 48)
      else if 97 \<le> n \<and> n \<le> 122 then Some (n - 87)
      else if 65 \<le> n \<and> n \<le> 90 then Some (n - 55)
      else None)"

fun scan_digits :: "nat \<Rightarrow> bool \<Rightarrow> int \<Rightarrow> string \<Rightarrow> int option" where
  \<comment> \<open>digits in the given base with single underscores between them; the flag says that
      the previous character was an underscore\<close>
  "scan_digits base prev_us acc [] = (if prev_us then None else Some acc)"
| "scan_digits base prev_us acc (c # cs) =
     (if c = CHR ''_'' then (if prev_us then None else scan_digits base True acc cs)
      else (case digit_value c of
              None \<Rightarrow> None
            | Some d \<Rightarrow> if d < base then scan_digits base False (acc * int base + int d) cs
                        else None))"

definition py_int :: "nat \<Rightarrow> string \<Rightarrow> py_error + int" where
  \<comment> \<open>\<open>int(s, base)\<close> for base 2, 10 or 16: surrounding whitespace, an optional sign,
      an optional base prefix (bases 2 and 16) with one optional underscore after it, then
      at least one digit\<close>
  "py_int base s =
     (let t = strip s;
          neg = startswith t ''-'';
          u = (if startswith t ''-'' \<or> startswith t ''+'' then drop 1 t else t);
          pre = (base = 16 \<and> (startswith u ''0x'' \<or> startswith u ''0X''))
              \<or> (base = 2 \<and> (startswith u ''0b'' \<or> startswith u ''0B''));
          v = (if pre then drop 2 u else u);
          w = (if pre \<and> startswith v ''_'' then drop 1 v else v)
      in if w = [] \<or> startswith w ''_'' then Inl (InvalidLiteral s)
         else (case scan_digits base False 0 w of
                 None \<Rightarrow> Inl (InvalidLiteral s)
               | Some n \<Rightarrow> Inr (if neg then - n else n)))"

definition init_registers :: "(string \<times> int) list" where
  \<comment> \<open>\<open>_init_registers\<close>: the dictionary as the list of its assignments, in the order
      the source makes them\<close>
  "init_registers =
     concat (map (\<lambda>i. [(''x'' @ str_nat i, int i), (''w'' @ str_nat i, int i)]) [0..<31])
     @ concat (map (\<lambda>i. [(''v'' @ str_nat i, int i), (''s'' @ str_nat i, int i),
                            (''d'' @ str_nat i, int i), (''q'' @ str_nat i, int i)]) [0..<32])
     @ [(''xzr'', 31), (''wzr'', 31), (''sp'', 31),
        (''lr'', 30), (''x30'', 30), (''fp'', 29), (''x29'', 29)]"

definition registers :: "string \<rightharpoonup> int" where
  \<comment> \<open>a later assignment to a key replaces an earlier one\<close>
  "registers = map_of (rev init_registers)"

definition parse_register :: "string \<Rightarrow> py_error + (int \<times> bool)" where
  "parse_register reg0 =
     (let reg = strip (lower reg0) in
      case registers reg of
        None \<Rightarrow> Inl (InvalidRegister reg)
      | Some n \<Rightarrow>
          Inr (n, startswith reg ''x'' \<or> reg \<in> set [''sp'', ''lr'', ''fp'', ''xzr'']))"

definition parse_imm :: "string \<Rightarrow> py_error + int" where
  "parse_imm imm0 =
     (let imm = lstrip_chars ''#'' (strip imm0) in
      if startswith imm ''0x'' then py_int 16 imm
      else if startswith imm ''0b'' then py_int 2 imm
      else py_int 10 imm)"

definition sign_extend :: "int \<Rightarrow> nat \<Rightarrow> int" where
  \<comment> \<open>for \<open>bits \<ge> 1\<close>\<close>
  "sign_extend v bits =
     (let sign_bit = push_bit (bits - 1) (1::int)
      in (v AND (sign_bit - 1)) - (v AND sign_bit))"


section \<open>Assembler state\<close>

datatype diagnostic =
    UndefinedLabel string  \<comment> \<open>the line \<open>Warning: Undefined label '...'\<close>\<close>

record asm_state =
  labels :: "string \<rightharpoonup> int"
  relocations :: "(int \<times> string \<times> string) list"  \<comment> \<open>(offset, label, type)\<close>
  address :: int
  machine_code :: "int list"
  stderr :: "diagnostic list"  \<comment> \<open>what the run has printed to \<open>sys.stderr\<close>\<close>

definition conditions :: "string \<rightharpoonup> int" where
  "conditions = map_of
     [(''eq'', 0), (''ne'', 1), (''cs'', 2), (''hs'', 2), (''cc'', 3), (''lo'', 3),
      (''mi'', 4), (''pl'', 5), (''vs'', 6), (''vc'', 7), (''hi'', 8), (''ls'', 9),
      (''ge'', 10), (''lt'', 11), (''gt'', 12), (''le'', 13), (''al'', 14)]"

definition Condition_AL :: int where
  "Condition_AL = 14"

abbreviation shl :: "int \<Rightarrow> nat \<Rightarrow> int" where
  \<comment> \<open>\<open>x << n\<close> on Python's unbounded integers\<close>
  "shl x n \<equiv> push_bit n x"

abbreviation shr :: "int \<Rightarrow> nat \<Rightarrow> int" where
  \<comment> \<open>\<open>x >> n\<close>: the arithmetic shift, rounding towards minus infinity\<close>
  "shr x n \<equiv> drop_bit n x"

abbreviation bit_of :: "bool \<Rightarrow> int" where
  \<comment> \<open>a \<open>bool\<close> used as the integer 0 or 1\<close>
  "bit_of b \<equiv> of_bool b"

definition reg_at :: "string list \<Rightarrow> int \<Rightarrow> py_error + (int \<times> bool)" where
  \<comment> \<open>\<open>self.parse_register(ops[i])\<close>\<close>
  "reg_at ops i = and_then (getitem ops i) parse_register"

definition imm_at :: "string list \<Rightarrow> int \<Rightarrow> py_error + int" where
  \<comment> \<open>\<open>self.parse_imm(ops[i])\<close>\<close>
  "imm_at ops i = and_then (getitem ops i) parse_imm"

definition dict_get :: "('k \<times> 'v) list \<Rightarrow> 'k \<Rightarrow> 'v \<Rightarrow> 'v" where
  \<comment> \<open>\<open>d.get(k, default)\<close> on a dictionary literal\<close>
  "dict_get d k dflt = (case map_of d k of None \<Rightarrow> dflt | Some v \<Rightarrow> v)"

definition dict_item :: "(string \<times> 'v) list \<Rightarrow> string \<Rightarrow> py_error + 'v" where
  \<comment> \<open>\<open>d[k]\<close> on a dictionary literal\<close>
  "dict_item d k = (case map_of d k of None \<Rightarrow> Inl (KeyError k) | Some v \<Rightarrow> Inr v)"

section \<open>Instruction encoders\<close>

subsection \<open>Data processing, immediate\<close>

definition encode_add_sub_imm :: "string \<Rightarrow> string list \<Rightarrow> py_error + int" where
  "encode_add_sub_imm mnem ops =
     (let is_sub = contains ''sub'' mnem; set_flags = endswith mnem ''s'' in
      and_then (reg_at ops 0) (\<lambda>(rd, sf).
      and_then (reg_at ops 1) (\<lambda>(rn, _).
      and_then (imm_at ops 2) (\<lambda>imm.
      if imm < 0 \<or> imm \<ge> 4096 then Inl (ImmediateOutOfRange imm)
      else
        and_then (if length ops > 3 \<and> contains ''lsl'' (lower (ops ! 3))
                  then and_then (imm_at ops 4) (\<lambda>s. Inr (s div 12))
                  else Inr 0) (\<lambda>shift.
        Inr (shl (bit_of sf) 31 OR shl (bit_of is_sub) 30 OR shl (bit_of set_flags) 29
             OR shl 0x22 23 OR shl shift 22 OR shl imm 10 OR shl rn 5 OR rd))))))"

definition encode_logical_imm :: "string \<Rightarrow> string list \<Rightarrow> py_error + int" where
  "encode_logical_imm mnem ops =
     (let opc = dict_get [(''and'', 0), (''orr'', 1), (''eor'', 2), (''ands'', 3)] mnem (1::int) in
      and_then (reg_at ops 0) (\<lambda>(rd, sf).
      and_then (reg_at ops 1) (\<lambda>(rn, _).
      and_then (imm_at ops 2) (\<lambda>imm.
      let N = bit_of sf; immr = (0::int); imms = imm AND 0x3F in
      Inr (shl (bit_of sf) 31 OR shl opc 29 OR shl 0x24 23 OR shl N 22
           OR shl immr 16 OR shl imms 10 OR shl rn 5 OR rd)))))"

definition encode_movz_movn_movk :: "string \<Rightarrow> string list \<Rightarrow> py_error + int" where
  "encode_movz_movn_movk mnem ops =
     and_then (dict_item [(''movz'', 2), (''movn'', 0), (''movk'', 3)] mnem) (\<lambda>opc.
     and_then (reg_at ops 0) (\<lambda>(rd, sf).
     and_then (imm_at ops 1) (\<lambda>imm.
     and_then (if length ops > 2 \<and> contains ''lsl'' (lower (ops ! 2))
               then and_then (imm_at ops 3) (\<lambda>shift. Inr (shift div 16))
               else Inr 0) (\<lambda>hw.
     if imm < 0 \<or> imm \<ge> 65536 then Inl (ImmediateOutOfRange imm)
     else Inr (shl (bit_of sf) 31 OR shl opc 29 OR shl 0x25 23 OR shl hw 21
               OR shl imm 5 OR rd)))))"

subsection \<open>Data processing, register\<close>

definition encode_add_sub_reg :: "string \<Rightarrow> string list \<Rightarrow> py_error + int" where
  "encode_add_sub_reg mnem ops =
     (let is_sub = contains ''sub'' mnem; set_flags = endswith mnem ''s'' in
      and_then (reg_at ops 0) (\<lambda>(rd, sf).
      and_then (reg_at ops 1) (\<lambda>(rn, _).
      and_then (reg_at ops 2) (\<lambda>(rm, _).
      let shift_type = (0::int); shift_amount = (0::int) in
      Inr (shl (bit_of sf) 31 OR shl (bit_of is_sub) 30 OR shl (bit_of set_flags) 29
           OR shl 0x0B 24 OR shl shift_type 22 OR shl rm 16 OR shl shift_amount 10
           OR shl rn 5 OR rd)))))"

definition encode_logical_reg :: "string \<Rightarrow> string list \<Rightarrow> py_error + int" where
  "encode_logical_reg mnem ops =
     (let opc_map = [(''and'', 0), (''bic'', 0), (''orr'', 1), (''orn'', 1),
                     (''eor'', 2), (''eon'', 2), (''ands'', 3), (''bics'', 3)];
          N = (if mnem \<in> set [''bic'', ''orn'', ''eon'', ''bics''] then 1 else (0::int));
          opc = dict_get opc_map mnem (1::int) in
      and_then (reg_at ops 0) (\<lambda>(rd, sf).
      and_then (reg_at ops 1) (\<lambda>(rn, _).
      and_then (reg_at ops 2) (\<lambda>(rm, _).
      Inr (shl (bit_of sf) 31 OR shl opc 29 OR shl 0x0A 24 OR shl N 21
           OR shl rm 16 OR shl rn 5 OR rd)))))"

definition encode_mul_div :: "string \<Rightarrow> string list \<Rightarrow> py_error + int" where
  "encode_mul_div mnem ops =
     and_then (reg_at ops 0) (\<lambda>(rd, sf).
     and_then (reg_at ops 1) (\<lambda>(rn, _).
     and_then (reg_at ops 2) (\<lambda>(rm, _).
     if mnem \<in> set [''mul''] then
       (let ra = (31::int); o0 = (0::int) in
        Inr (shl (bit_of sf) 31 OR shl 0x1B 24 OR shl rm 16 OR shl o0 15
             OR shl ra 10 OR shl rn 5 OR rd))
     else if mnem \<in> set [''madd'', ''msub''] then
       and_then (reg_at ops 3) (\<lambda>(ra, _).
       let o0 = (if mnem = ''msub'' then 1 else (0::int)) in
       Inr (shl (bit_of sf) 31 OR shl 0x1B 24 OR shl rm 16 OR shl o0 15
            OR shl ra 10 OR shl rn 5 OR rd))
     else if mnem \<in> set [''sdiv'', ''udiv''] then
       (let o0 = (if mnem = ''sdiv'' then 1 else (0::int)) in
        Inr (shl (bit_of sf) 31 OR shl 0xD6 21 OR shl rm 16 OR shl o0 10 OR shl rn 5 OR rd))
     else Inl UnboundLocalError)))"

definition encode_shift :: "string \<Rightarrow> string list \<Rightarrow> py_error + int" where
  "encode_shift mnem ops =
     and_then (dict_item [(''lsl'', 0), (''lsr'', 1), (''asr'', 2), (''ror'', 3)] mnem) (\<lambda>shift.
     and_then (reg_at ops 0) (\<lambda>(rd, sf).
     and_then (reg_at ops 1) (\<lambda>(rn, _).
     and_then (getitem ops 2) (\<lambda>op2.
     if startswith (strip op2) ''#'' then
       and_then (parse_imm op2) (\<lambda>imm.
       Inr (shl (bit_of sf) 31 OR shl 0x4D6 21 OR shl imm 16 OR shl imm 10 OR shl rn 5 OR rd))
     else
       and_then (parse_register op2) (\<lambda>(rm, _).
       Inr (shl (bit_of sf) 31 OR shl 0xD6 21 OR shl rm 16 OR shl 2 12 OR shl shift 10
            OR shl rn 5 OR rd))))))"


subsection \<open>Load and store\<close>

definition encode_ldr_str :: "string \<Rightarrow> string list \<Rightarrow> py_error + int" where
  "encode_ldr_str mnem ops =
     (let is_load = contains ''ldr'' mnem in
      and_then (reg_at ops 0) (\<lambda>(rt, sf).
      and_then (getitem ops 1) (\<lambda>op1.
      let mem = strip op1 in
      if contains ''['' mem \<and> contains ''#'' mem then
        (let parts = split_char CHR '','' (strip_chars ''[]'' mem) in
         and_then (reg_at parts 0) (\<lambda>(rn, _).
         and_then (imm_at parts 1) (\<lambda>imm.
         let size = (if sf then 3 else (2::int));
             scale = 2 + (size - 2);
             imm12 = (if imm \<ge> 0 then shr imm (nat scale) else 0) in
         Inr (shl size 30 OR shl 7 27 OR shl 1 24 OR shl (bit_of is_load) 22
              OR shl imm12 10 OR shl rn 5 OR rt))))
      else if contains ''['' mem \<and> contains '','' mem then
        (let parts = split_char CHR '','' (strip_chars ''[]'' mem) in
         and_then (reg_at parts 0) (\<lambda>(rn, _).
         and_then (reg_at parts 1) (\<lambda>(rm, _).
         let size = (if sf then 3 else (2::int)); option = (3::int); S = (1::int) in
         Inr (shl size 30 OR shl 7 27 OR shl (bit_of is_load) 22 OR shl 1 21
              OR shl rm 16 OR shl option 13 OR shl S 12 OR shl 2 10
              OR shl rn 5 OR rt))))
      else
        and_then (parse_register (strip_chars ''[]'' mem)) (\<lambda>(rn, _).
        let size = (if sf then 3 else (2::int)) in
        Inr (shl size 30 OR shl 7 27 OR shl 1 24 OR shl (bit_of is_load) 22
             OR shl rn 5 OR rt)))))"

definition encode_ldp_stp :: "string \<Rightarrow> string list \<Rightarrow> py_error + int" where
  "encode_ldp_stp mnem ops =
     (let is_load = contains ''ldp'' mnem in
      and_then (reg_at ops 0) (\<lambda>(rt1, sf).
      and_then (reg_at ops 1) (\<lambda>(rt2, _).
      and_then (getitem ops 2) (\<lambda>op2.
      let mem = strip op2 in
      and_then
        (if contains ''['' mem \<and> contains ''#'' mem then
           (let parts = split_char CHR '','' (strip_chars ''[]'' mem) in
            and_then (reg_at parts 0) (\<lambda>(rn, _).
            and_then (imm_at parts 1) (\<lambda>imm.
            Inr (rn, shr imm 3 AND 0x7F))))
         else
           and_then (parse_register (strip_chars ''[]'' mem)) (\<lambda>(rn, _).
           Inr (rn, 0)))
        (\<lambda>(rn, imm7).
         let opc = (if sf then 2 else (0::int)) in
         Inr (shl opc 30 OR shl 5 27 OR shl 2 23 OR shl (bit_of is_load) 22
              OR shl imm7 15 OR shl rt2 10 OR shl rn 5 OR rt1))))))"

subsection \<open>PC-relative addresses and branches\<close>

definition add_relocation :: "string \<Rightarrow> string \<Rightarrow> asm_state \<Rightarrow> asm_state" where
  \<comment> \<open>\<open>self.relocations.append((self.address, label, rel_type))\<close>\<close>
  "add_relocation label rel_type st =
     st\<lparr>relocations := relocations st @ [(address st, label, rel_type)]\<rparr>"

definition encode_adr_adrp ::
  "string \<Rightarrow> string list \<Rightarrow> asm_state \<Rightarrow> py_error + (int \<times> asm_state)" where
  "encode_adr_adrp mnem ops st =
     and_then (reg_at ops 0) (\<lambda>(rd, _).
     and_then (getitem ops 1) (\<lambda>op1.
     let label = strip op1;
         op = (if mnem = ''adrp'' then 1 else (0::int)) in
     case labels st label of
       Some target \<Rightarrow>
         (let offset0 = target - address st;
              offset = (if mnem = ''adrp'' then shr offset0 12 AND 0x1FFFFF else offset0);
              immlo = offset AND 0x3;
              immhi = shr offset 2 AND 0x7FFFF in
          Inr (shl op 31 OR shl immlo 29 OR shl 0x10 24 OR shl immhi 5 OR rd, st))
     | None \<Rightarrow>
         Inr (shl op 31 OR shl 0 29 OR shl 0x10 24 OR shl 0 5 OR rd,
              add_relocation label mnem st)))"

definition encode_b_bl ::
  "string \<Rightarrow> string list \<Rightarrow> asm_state \<Rightarrow> py_error + (int \<times> asm_state)" where
  "encode_b_bl mnem ops st =
     (let is_link = (mnem = ''bl'') in
      and_then (getitem ops 0) (\<lambda>op0.
      let label = strip op0 in
      case labels st label of
        Some target \<Rightarrow>
          (let offset = shr (target - address st) 2 AND 0x3FFFFFF in
           Inr (shl (bit_of is_link) 31 OR shl 5 26 OR offset, st))
      | None \<Rightarrow>
          Inr (shl (bit_of is_link) 31 OR shl 5 26 OR 0, add_relocation label ''b'' st)))"

definition encode_b_cond ::
  "string \<Rightarrow> string list \<Rightarrow> asm_state \<Rightarrow> py_error + (int \<times> asm_state)" where
  "encode_b_cond mnem ops st =
     and_then (if contains ''.'' mnem then getitem (split_char CHR ''.'' mnem) 1
               else and_then (getitem ops 0) (\<lambda>op0. Inr (strip_chars ''.'' op0))) (\<lambda>cond_str.
     let cond = (case conditions (lower cond_str) of None \<Rightarrow> Condition_AL | Some c \<Rightarrow> c) in
     and_then (getitem ops (-1)) (\<lambda>opl.
     let label = strip opl in
     case labels st label of
       Some target \<Rightarrow>
         (let offset = shr (target - address st) 2 AND 0x7FFFF in
          Inr (shl 0x54 24 OR shl offset 5 OR cond, st))
     | None \<Rightarrow>
         Inr (shl 0x54 24 OR shl 0 5 OR cond, add_relocation label ''bcond'' st)))"

definition encode_br_blr_ret :: "string \<Rightarrow> string list \<Rightarrow> py_error + int" where
  "encode_br_blr_ret mnem ops =
     (if mnem = ''ret'' then
        and_then (if ops = [] \<or> strip (ops ! 0) = [] then Inr 30
                  else and_then (reg_at ops 0) (\<lambda>(rn, _). Inr rn)) (\<lambda>rn.
        Inr (shl 0x6B 25 OR shl 2 21 OR shl 0x1F 16 OR shl rn 5))
      else
        (let is_link = (mnem = ''blr'') in
         and_then (reg_at ops 0) (\<lambda>(rn, _).
         Inr (shl 0x6B 25 OR shl (bit_of is_link) 21 OR shl 0x1F 16 OR shl rn 5))))"

definition encode_cbz_cbnz ::
  "string \<Rightarrow> string list \<Rightarrow> asm_state \<Rightarrow> py_error + (int \<times> asm_state)" where
  "encode_cbz_cbnz mnem ops st =
     (let is_nz = (mnem = ''cbnz'') in
      and_then (reg_at ops 0) (\<lambda>(rt, sf).
      and_then (getitem ops 1) (\<lambda>op1.
      let label = strip op1 in
      case labels st label of
        Some target \<Rightarrow>
          (let offset = shr (target - address st) 2 AND 0x7FFFF in
           Inr (shl (bit_of sf) 31 OR shl 0x1A 25 OR shl (bit_of is_nz) 24
                OR shl offset 5 OR rt, st))
      | None \<Rightarrow>
          Inr (shl (bit_of sf) 31 OR shl 0x1A 25 OR shl (bit_of is_nz) 24
               OR shl 0 5 OR rt, add_relocation label ''cb'' st))))"

definition encode_tbz_tbnz ::
  "string \<Rightarrow> string list \<Rightarrow> asm_state \<Rightarrow> py_error + (int \<times> asm_state)" where
  "encode_tbz_tbnz mnem ops st =
     (let is_nz = (mnem = ''tbnz'') in
      and_then (reg_at ops 0) (\<lambda>(rt, sf).
      and_then (imm_at ops 1) (\<lambda>bit.
      and_then (getitem ops 2) (\<lambda>op2.
      let label = strip op2;
          b40 = bit AND 0x1F;
          b5 = shr bit 5 AND 1 in
      case labels st label of
        Some target \<Rightarrow>
          (let offset = shr (target - address st) 2 AND 0x3FFF in
           Inr (shl b5 31 OR shl 0x1B 25 OR shl (bit_of is_nz) 24 OR shl b40 19
                OR shl offset 5 OR rt, st))
      | None \<Rightarrow>
          Inr (shl b5 31 OR shl 0x1B 25 OR shl (bit_of is_nz) 24 OR shl b40 19
               OR shl 0 5 OR rt, add_relocation label ''tb'' st)))))"


subsection \<open>System instructions and aliases\<close>

definition encode_nop :: "string \<Rightarrow> string list \<Rightarrow> py_error + int" where
  "encode_nop mnem ops = Inr 0xD503201F"

definition encode_brk :: "string \<Rightarrow> string list \<Rightarrow> py_error + int" where
  "encode_brk mnem ops =
     and_then (if ops \<noteq> [] then imm_at ops 0 else Inr 0) (\<lambda>imm.
     Inr (shl 0x6A1 21 OR shl imm 5))"

definition encode_svc :: "string \<Rightarrow> string list \<Rightarrow> py_error + int" where
  "encode_svc mnem ops =
     and_then (if ops \<noteq> [] then imm_at ops 0 else Inr 0) (\<lambda>imm.
     Inr (shl 0x6A0 21 OR shl imm 5 OR 1))"

definition encode_mrs_msr :: "string \<Rightarrow> string list \<Rightarrow> py_error + int" where
  "encode_mrs_msr mnem ops =
     (let is_read = (mnem = ''mrs'') in
      if is_read then
        and_then (reg_at ops 0) (\<lambda>(rt, _).
        let op0 = (3::int) in
        Inr (shl 0x354 22 OR shl 1 21 OR shl op0 19 OR rt))
      else
        and_then (reg_at ops 1) (\<lambda>(rt, _).
        Inr (shl 0x354 22 OR shl 0 21 OR rt)))"

definition encode_mov :: "string \<Rightarrow> string list \<Rightarrow> py_error + int" where
  "encode_mov mnem ops =
     and_then (reg_at ops 0) (\<lambda>(rd, sf).
     and_then (getitem ops 1) (\<lambda>op1.
     if startswith (strip op1) ''#'' then encode_movz_movn_movk ''movz'' ops
     else
       and_then (parse_register op1) (\<lambda>(rm, _).
       Inr (shl (bit_of sf) 31 OR shl 1 29 OR shl 0x0A 24 OR shl rm 16 OR shl 31 5 OR rd))))"

definition encode_cmp :: "string \<Rightarrow> string list \<Rightarrow> py_error + int" where
  "encode_cmp mnem ops =
     and_then (reg_at ops 0) (\<lambda>(rn, sf).
     and_then (getitem ops 1) (\<lambda>op1.
     if startswith (strip op1) ''#'' then
       and_then (parse_imm op1) (\<lambda>imm.
       Inr (shl (bit_of sf) 31 OR shl 7 28 OR shl 0x22 23 OR shl imm 10 OR shl rn 5 OR 31))
     else
       and_then (parse_register op1) (\<lambda>(rm, _).
       Inr (shl (bit_of sf) 31 OR shl 7 28 OR shl 0x0B 24 OR shl rm 16 OR shl rn 5 OR 31))))"

definition encode_csel :: "string \<Rightarrow> string list \<Rightarrow> py_error + int" where
  "encode_csel mnem ops =
     (let op2 = dict_get [(''csel'', 0), (''csinc'', 1), (''csinv'', 2), (''csneg'', 3)]
                  mnem (0::int) in
      and_then (reg_at ops 0) (\<lambda>(rd, sf).
      and_then (reg_at ops 1) (\<lambda>(rn, _).
      and_then (reg_at ops 2) (\<lambda>(rm, _).
      and_then (getitem ops 3) (\<lambda>op3.
      let cond = (case conditions (lower op3) of None \<Rightarrow> Condition_AL | Some c \<Rightarrow> c) in
      Inr (shl (bit_of sf) 31 OR shl 0xD4 21 OR shl rm 16 OR shl cond 12
           OR shl rn 5 OR rd OR shl op2 10))))))"

section \<open>The two-pass driver\<close>

definition try_imm_or_reg ::
  "string \<Rightarrow> string list \<Rightarrow> (string \<Rightarrow> string list \<Rightarrow> py_error + int)
     \<Rightarrow> (string \<Rightarrow> string list \<Rightarrow> py_error + int) \<Rightarrow> py_error + int" where
  "try_imm_or_reg mnem ops imm_fn reg_fn =
     (if length ops \<ge> 3 \<and> startswith (strip (ops ! 2)) ''#'' then imm_fn mnem ops
      else reg_fn mnem ops)"

definition stateless ::
  "py_error + int \<Rightarrow> asm_state \<Rightarrow> py_error + (int \<times> asm_state)" where
  \<comment> \<open>an encoder that neither reads nor writes the assembler's fields\<close>
  "stateless r st = and_then r (\<lambda>w. Inr (w, st))"

definition encoders ::
  "(string \<times> (string list \<Rightarrow> asm_state \<Rightarrow> py_error + (int \<times> asm_state))) list" where
  \<comment> \<open>the dispatch dictionary of \<open>assemble_instruction\<close>; each closure of the source
      captures \<open>ops\<close> and \<open>self\<close>, which are its arguments here\<close>
  "encoders =
    [(''add'', \<lambda>ops. stateless (try_imm_or_reg ''add'' ops encode_add_sub_imm encode_add_sub_reg)),
     (''adds'', \<lambda>ops. stateless (try_imm_or_reg ''adds'' ops encode_add_sub_imm encode_add_sub_reg)),
     (''sub'', \<lambda>ops. stateless (try_imm_or_reg ''sub'' ops encode_add_sub_imm encode_add_sub_reg)),
     (''subs'', \<lambda>ops. stateless (try_imm_or_reg ''subs'' ops encode_add_sub_imm encode_add_sub_reg)),
     (''and'', \<lambda>ops. stateless (try_imm_or_reg ''and'' ops encode_logical_imm encode_logical_reg)),
     (''orr'', \<lambda>ops. stateless (try_imm_or_reg ''orr'' ops encode_logical_imm encode_logical_reg)),
     (''eor'', \<lambda>ops. stateless (try_imm_or_reg ''eor'' ops encode_logical_imm encode_logical_reg)),
     (''ands'', \<lambda>ops. stateless (try_imm_or_reg ''ands'' ops encode_logical_imm encode_logical_reg)),
     (''bic'', \<lambda>ops. stateless (encode_logical_reg ''bic'' ops)),
     (''orn'', \<lambda>ops. stateless (encode_logical_reg ''orn'' ops)),
     (''eon'', \<lambda>ops. stateless (encode_logical_reg ''eon'' ops)),
     (''movz'', \<lambda>ops. stateless (encode_movz_movn_movk ''movz'' ops)),
     (''movn'', \<lambda>ops. stateless (encode_movz_movn_movk ''movn'' ops)),
     (''movk'', \<lambda>ops. stateless (encode_movz_movn_movk ''movk'' ops)),
     (''mov'', \<lambda>ops. stateless (encode_mov ''mov'' ops)),
     (''mul'', \<lambda>ops. stateless (encode_mul_div ''mul'' ops)),
     (''madd'', \<lambda>ops. stateless (encode_mul_div ''madd'' ops)),
     (''msub'', \<lambda>ops. stateless (encode_mul_div ''msub'' ops)),
     (''sdiv'', \<lambda>ops. stateless (encode_mul_div ''sdiv'' ops)),
     (''udiv'', \<lambda>ops. stateless (encode_mul_div ''udiv'' ops)),
     (''lsl'', \<lambda>ops. stateless (encode_shift ''lsl'' ops)),
     (''lsr'', \<lambda>ops. stateless (encode_shift ''lsr'' ops)),
     (''asr'', \<lambda>ops. stateless (encode_shift ''asr'' ops)),
     (''ror'', \<lambda>ops. stateless (encode_shift ''ror'' ops)),
     (''ldr'', \<lambda>ops. stateless (encode_ldr_str ''ldr'' ops)),
     (''str'', \<lambda>ops. stateless (encode_ldr_str ''str'' ops)),
     (''ldp'', \<lambda>ops. stateless (encode_ldp_stp ''ldp'' ops)),
     (''stp'', \<lambda>ops. stateless (encode_ldp_stp ''stp'' ops)),
     (''adr'', encode_adr_adrp ''adr''),
     (''adrp'', encode_adr_adrp ''adrp''),
     (''b'', encode_b_bl ''b''),
     (''bl'', encode_b_bl ''bl''),
     (''br'', \<lambda>ops. stateless (encode_br_blr_ret ''br'' ops)),
     (''blr'', \<lambda>ops. stateless (encode_br_blr_ret ''blr'' ops)),
     (''ret'', \<lambda>ops. stateless (encode_br_blr_ret ''ret'' ops)),
     (''cbz'', encode_cbz_cbnz ''cbz''),
     (''cbnz'', encode_cbz_cbnz ''cbnz''),
     (''tbz'', encode_tbz_tbnz ''tbz''),
     (''tbnz'', encode_tbz_tbnz ''tbnz''),
     (''cmp'', \<lambda>ops. stateless (encode_cmp ''cmp'' ops)),
     (''csel'', \<lambda>ops. stateless (encode_csel ''csel'' ops)),
     (''csinc'', \<lambda>ops. stateless (encode_csel ''csinc'' ops)),
     (''csinv'', \<lambda>ops. stateless (encode_csel ''csinv'' ops)),
     (''csneg'', \<lambda>ops. stateless (encode_csel ''csneg'' ops)),
     (''nop'', \<lambda>ops. stateless (encode_nop ''nop'' ops)),
     (''brk'', \<lambda>ops. stateless (encode_brk ''brk'' ops)),
     (''svc'', \<lambda>ops. stateless (encode_svc ''svc'' ops)),
     (''mrs'', \<lambda>ops. stateless (encode_mrs_msr ''mrs'' ops)),
     (''msr'', \<lambda>ops. stateless (encode_mrs_msr ''msr'' ops))]"

definition remove_comment :: "string \<Rightarrow> string \<Rightarrow> string" where
  \<comment> \<open>one round of the comment loop: cut the line at the first occurrence of the marker,
      except for \<open>#\<close> on a line that contains \<open>[\<close>\<close>
  "remove_comment line comment =
     (case str_find line comment of
        None \<Rightarrow> line
      | Some i \<Rightarrow> if \<not> (comment = ''#'' \<and> contains ''['' line) then take i line else line)"

definition tokenize :: "string \<Rightarrow> string list" where
  \<comment> \<open>\<open>parts = line.replace(',', ' ').split()\<close>\<close>
  "tokenize line = split_ws (replace_char CHR '','' CHR '' '' line)"

definition operands :: "string list \<Rightarrow> string list" where
  \<comment> \<open>\<open>ops = [p.strip() for p in ' '.join(parts[1:]).split(',') if p.strip()]\<close>\<close>
  "operands parts =
     map strip (filter (\<lambda>p. strip p \<noteq> []) (split_char CHR '','' (join '' '' (drop 1 parts))))"

definition dispatch ::
  "string \<Rightarrow> string list \<Rightarrow> asm_state \<Rightarrow> py_error + (int \<times> asm_state)" where
  \<comment> \<open>the end of \<open>assemble_instruction\<close>: conditional branches first, then the dictionary\<close>
  "dispatch mnem ops st =
     (if startswith mnem ''b.'' then encode_b_cond mnem ops st
      else case map_of encoders mnem of
             Some enc \<Rightarrow> enc ops st
           | None \<Rightarrow> Inl (UnknownInstruction mnem))"

definition assemble_instruction ::
  "string \<Rightarrow> asm_state \<Rightarrow> py_error + (int option \<times> asm_state)" where
  "assemble_instruction line0 st =
     (let line1 = foldl remove_comment (strip line0) ['';'', ''//'', ''#''] in
      if line1 = [] then Inr (None, st)
      else
        let has_label = (contains '':'' line1 \<and> \<not> contains ''['' line1);
            st1 = (if has_label
                   then st\<lparr>labels := (labels st)(strip (fst (split_once CHR '':'' line1))
                                                    \<mapsto> address st)\<rparr>
                   else st);
            line2 = (if has_label then strip (snd (split_once CHR '':'' line1)) else line1)
        in
          if has_label \<and> line2 = [] then Inr (None, st1)
          else
            let parts = tokenize line2 in
            if parts = [] then Inr (None, st1)
            else
              let mnem = lower (parts ! 0); ops = operands parts in
              and_then (dispatch mnem ops st1) (\<lambda>(w, st2). Inr (Some w, st2)))"

definition pass1_line :: "asm_state \<Rightarrow> string \<Rightarrow> asm_state" where
  \<comment> \<open>the body of the first loop of \<open>assemble\<close>\<close>
  "pass1_line st line0 =
     (let line = strip line0 in
      if line = [] \<or> startswith line '';'' \<or> startswith line ''//'' then st
      else
        let has_label = (contains '':'' line \<and> \<not> contains ''['' line);
            st1 = (if has_label
                   then st\<lparr>labels := (labels st)(strip (fst (split_once CHR '':'' line))
                                                    \<mapsto> address st)\<rparr>
                   else st);
            line1 = (if has_label then strip (snd (split_once CHR '':'' line)) else line)
        in
          if startswith line1 ''.'' then st1
          else if line1 \<noteq> [] \<and> \<not> startswith line1 '';'' \<and> \<not> startswith line1 ''//''
               then st1\<lparr>address := address st1 + 4\<rparr>
               else st1)"

definition pass1 :: "string list \<Rightarrow> asm_state \<Rightarrow> asm_state" where
  "pass1 lines st = foldl pass1_line st lines"

fun pass2 :: "string list \<Rightarrow> asm_state \<Rightarrow> py_error + asm_state" where
  \<comment> \<open>the second loop of \<open>assemble\<close>; an exception leaves the loop and the function (the
      message printed before it is raised again is not recorded)\<close>
  "pass2 [] st = Inr st"
| "pass2 (line # rest) st =
     and_then (assemble_instruction line st) (\<lambda>(encoded, st1).
       case encoded of
         None \<Rightarrow> pass2 rest st1
       | Some w \<Rightarrow> pass2 rest (st1\<lparr>machine_code := machine_code st1 @ [w],
                                     address := address st1 + 4\<rparr>))"

section \<open>Relocation resolver\<close>

definition patch_word :: "string \<Rightarrow> int \<Rightarrow> int \<Rightarrow> int \<Rightarrow> int" where
  \<comment> \<open>the \<open>if\<close>/\<open>elif\<close> chain of \<open>_resolve_relocations\<close>: the new value of \<open>instr\<close>\<close>
  "patch_word rel_type target offset instr =
     (if rel_type \<in> set [''b'', ''bl''] then
        (let offset_val = shr (target - offset) 2 AND 0x3FFFFFF in
         (instr AND 0xFC000000) OR offset_val)
      else if rel_type = ''bcond'' then
        (let offset_val = shr (target - offset) 2 AND 0x7FFFF in
         (instr AND 0xFF00001F) OR shl offset_val 5)
      else if rel_type \<in> set [''cb'', ''cbz'', ''cbnz''] then
        (let offset_val = shr (target - offset) 2 AND 0x7FFFF in
         (instr AND 0xFF00001F) OR shl offset_val 5)
      else if rel_type \<in> set [''tb'', ''tbz'', ''tbnz''] then
        (let offset_val = shr (target - offset) 2 AND 0x3FFF in
         (instr AND 0xFFF8001F) OR shl offset_val 5)
      else if rel_type \<in> set [''adr'', ''adrp''] then
        (let offset_val0 = target - offset;
             offset_val = (if rel_type = ''adrp'' then shr offset_val0 12 else offset_val0);
             immlo = offset_val AND 0x3;
             immhi = shr offset_val 2 AND 0x7FFFF in
         (instr AND 0x9F00001F) OR shl immlo 29 OR shl immhi 5)
      else instr)"

definition resolve_one ::
  "int \<Rightarrow> asm_state \<Rightarrow> int \<times> string \<times> string \<Rightarrow> py_error + asm_state" where
  \<comment> \<open>the body of the loop of \<open>_resolve_relocations\<close>\<close>
  "resolve_one base_address st r =
     (case r of (offset, label, rel_type) \<Rightarrow>
        (case labels st label of
           None \<Rightarrow> Inr (st\<lparr>stderr := stderr st @ [UndefinedLabel label]\<rparr>)
         | Some target \<Rightarrow>
             (let idx = (offset - base_address) div 4 in
              if idx \<ge> int (length (machine_code st)) then Inr st
              else
                and_then (getitem (machine_code st) idx) (\<lambda>instr.
                and_then (setitem (machine_code st) idx
                            (patch_word rel_type target offset instr)) (\<lambda>mc.
                Inr (st\<lparr>machine_code := mc\<rparr>))))))"

fun resolve_loop ::
  "int \<Rightarrow> (int \<times> string \<times> string) list \<Rightarrow> asm_state \<Rightarrow> py_error + asm_state" where
  "resolve_loop base_address [] st = Inr st"
| "resolve_loop base_address (r # rs) st =
     and_then (resolve_one base_address st r) (resolve_loop base_address rs)"

definition resolve_relocations :: "int \<Rightarrow> asm_state \<Rightarrow> py_error + asm_state" where
  "resolve_relocations base_address st = resolve_loop base_address (relocations st) st"

definition assemble :: "string \<Rightarrow> int \<Rightarrow> asm_state \<Rightarrow> py_error + asm_state" where
  \<comment> \<open>\<open>assemble(source, base_address)\<close>; the list it returns is \<open>machine_code\<close> of the result\<close>
  "assemble source base_address st =
     (let lines = split_char CHR 0x0A (strip source);
          st1 = pass1 lines (st\<lparr>address := base_address, labels := Map.empty,
                                  relocations := []\<rparr>);
          st2 = st1\<lparr>address := base_address, machine_code := []\<rparr>
      in and_then (pass2 lines st2) (resolve_relocations base_address))"

definition new_assembler :: asm_state where
  \<comment> \<open>\<open>ARM64Assembler()\<close>\<close>
  "new_assembler = \<lparr>labels = Map.empty, relocations = [], address = 0,
                     machine_code = [], stderr = []\<rparr>"


section \<open>Executable emitter\<close>

type_synonym byte = "8 word"

record binary_file =
  data :: "byte list"
  pos :: nat

definition f_write :: "byte list \<Rightarrow> binary_file \<Rightarrow> binary_file" where
  \<comment> \<open>\<open>f.write(bs)\<close> at the current position; a position beyond the end of the file
      leaves a gap of zero bytes\<close>
  "f_write bs f =
     f\<lparr>data := take (pos f) (data f) @ replicate (pos f - length (data f)) 0 @ bs
                 @ drop (pos f + length bs) (data f),
       pos := pos f + length bs\<rparr>"

definition f_seek :: "nat \<Rightarrow> binary_file \<Rightarrow> binary_file" where
  \<comment> \<open>\<open>f.seek(p)\<close>\<close>
  "f_seek p f = f\<lparr>pos := p\<rparr>"

definition f_tell :: "binary_file \<Rightarrow> nat" where
  \<comment> \<open>\<open>f.tell()\<close>\<close>
  "f_tell f = pos f"

definition le_bytes :: "nat \<Rightarrow> int \<Rightarrow> byte list" where
  \<comment> \<open>the \<open>n\<close> low bytes of \<open>v\<close>, least significant first\<close>
  "le_bytes n v = map (\<lambda>i. word_of_int (shr v (8 * i))) [0..<n]"

definition pack_le :: "nat \<Rightarrow> int \<Rightarrow> py_error + byte list" where
  \<comment> \<open>\<open>struct.pack\<close> of an unsigned little-endian integer of \<open>n\<close> bytes\<close>
  "pack_le n v =
     (if 0 \<le> v \<and> v < 2 ^ (8 * n) then Inr (le_bytes n v) else Inl StructError)"

definition pack_I :: "int \<Rightarrow> py_error + byte list" where
  \<comment> \<open>\<open>struct.pack('<I', v)\<close>\<close>
  "pack_I v = pack_le 4 v"

definition pack_Q :: "int \<Rightarrow> py_error + byte list" where
  \<comment> \<open>\<open>struct.pack('<Q', v)\<close>\<close>
  "pack_Q v = pack_le 8 v"

definition name16 :: "string \<Rightarrow> py_error + byte list" where
  \<comment> \<open>a bytes literal: the name followed by the zero bytes the source writes out, 16 bytes
      in all\<close>
  "name16 s = Inr (map of_char s @ replicate (16 - length s) 0)"

fun write_all :: "(py_error + byte list) list \<Rightarrow> binary_file \<Rightarrow> (py_error \<times> binary_file) + binary_file" where
  \<comment> \<open>a run of \<open>f.write(...)\<close> statements; an argument that raises stops the run with the
      file as the statements before it left it\<close>
  "write_all [] f = Inr f"
| "write_all (Inl e # rest) f = Inl (e, f)"
| "write_all (Inr bs # rest) f = write_all rest (f_write bs f)"

definition write_macho :: "int list \<Rightarrow> int \<Rightarrow> binary_file \<Rightarrow> (py_error \<times> binary_file) + binary_file" where
  \<comment> \<open>the body of the \<open>with open(...)\<close> block of \<open>generate_macho\<close>\<close>
  "write_macho code entry_addr f0 =
     (let text_size = int (length code) * 4;
          text_addr = (0x100000000 :: int);
          header_size = (32 :: nat);
          text_cmd_size = (152 :: int);
          text_fileoff = (0x4000 :: nat)
      in
      and_then (write_all
         [pack_I 0xFEEDFACF, pack_I 0x0100000C, pack_I 0x00000000, pack_I 0x00000002,
          pack_I 3, pack_I 0, pack_I 0x00200085, pack_I 0] f0) (\<lambda>f1.
      let load_cmd_start = f_tell f1 in
      and_then (write_all
         [pack_I 0x19, pack_I 72, name16 ''__PAGEZERO'',
          pack_Q 0, pack_Q 0x100000000, pack_Q 0, pack_Q 0,
          pack_I 0, pack_I 0, pack_I 0, pack_I 0,
          pack_I 0x19, pack_I text_cmd_size, name16 ''__TEXT'',
          pack_Q text_addr, pack_Q 0x4000, pack_Q 0, pack_Q (int text_fileoff + text_size),
          pack_I 0x7, pack_I 0x5, pack_I 1, pack_I 0,
          name16 ''__text'', name16 ''__TEXT'',
          pack_Q text_addr, pack_Q text_size, pack_I (int text_fileoff), pack_I 2,
          pack_I 0, pack_I 0, pack_I 0x80000400, pack_I 0, pack_I 0, pack_I 0,
          pack_I 0x80000028, pack_I 24, pack_Q (entry_addr - text_addr), pack_Q 0] f1) (\<lambda>f2.
      let load_cmd_end = f_tell f2;
          sizeofcmds = int load_cmd_end - int load_cmd_start in
      and_then (write_all [pack_I sizeofcmds] (f_seek (header_size - 12) f2)) (\<lambda>f3.
      write_all (map pack_I code) (f_seek text_fileoff f3)))))"

record filesystem =
  files :: "string \<rightharpoonup> byte list"
  writable :: "string \<Rightarrow> bool"  \<comment> \<open>the paths that \<open>open(path, 'wb')\<close> can open\<close>

definition generate_macho ::
  "string \<Rightarrow> string \<Rightarrow> asm_state \<Rightarrow> filesystem \<Rightarrow> py_error option \<times> filesystem" where
  \<comment> \<open>the exception raised, if any, and the file system afterwards; leaving the \<open>with\<close>
      block closes the file, also on an exception, so what was written stays in the file\<close>
  "generate_macho output_file entry_point st fs =
     (case labels st entry_point of
        None \<Rightarrow> (Some (EntryPointNotFound entry_point), fs)
      | Some entry_addr \<Rightarrow>
          if \<not> writable fs output_file then (Some (OSError output_file), fs)
          else
            (case write_macho (machine_code st) entry_addr \<lparr>data = [], pos = 0\<rparr> of
               Inl (e, f) \<Rightarrow> (Some e, fs\<lparr>files := (files fs)(output_file \<mapsto> data f)\<rparr>)
             | Inr f \<Rightarrow> (None, fs\<lparr>files := (files fs)(output_file \<mapsto> data f)\<rparr>)))"


section \<open>Vocabulary of the claims\<close>

definition field_bits :: "string \<Rightarrow> nat set" where
  \<comment> \<open>the bit positions of the immediate field of each relocation kind, as the
      specification lists them\<close>
  "field_bits rel_type =
     (if rel_type \<in> set [''b'', ''bl''] then {0..25}
      else if rel_type \<in> set [''bcond'', ''cb'', ''cbz'', ''cbnz''] then {5..23}
      else if rel_type \<in> set [''tb'', ''tbz'', ''tbnz''] then {5..18}
      else if rel_type \<in> set [''adr'', ''adrp''] then {29, 30} \<union> {5..23}
      else {})"

definition setter :: "(int \<Rightarrow> int) \<Rightarrow> bool" where
  \<comment> \<open>a function on words that overwrites a fixed set of bits with fixed values\<close>
  "setter f = (\<exists>K V. K AND V = 0 \<and> (\<forall>w. f w = (w AND K) OR V))"

definition word_step ::
  "int \<Rightarrow> (string \<rightharpoonup> int) \<Rightarrow> nat \<Rightarrow> nat \<Rightarrow> int \<times> string \<times> string \<Rightarrow> int \<Rightarrow> int" where
  \<comment> \<open>what one relocation does to word \<open>i\<close> of a buffer of \<open>n\<close> words\<close>
  "word_step base_address lbls n i r w =
     (case r of (offset, label, rel_type) \<Rightarrow>
        (case lbls label of
           None \<Rightarrow> w
         | Some target \<Rightarrow>
             (let idx = (offset - base_address) div 4 in
              if idx < int n \<and> (if idx < 0 then int n + idx else idx) = int i
              then patch_word rel_type target offset w else w)))"

definition word_after ::
  "int \<Rightarrow> (string \<rightharpoonup> int) \<Rightarrow> nat \<Rightarrow> nat \<Rightarrow> (int \<times> string \<times> string) list \<Rightarrow> int \<Rightarrow> int" where
  \<comment> \<open>what a list of relocations, taken in order, does to word \<open>i\<close>\<close>
  "word_after base_address lbls n i rs w =
     foldl (\<lambda>v r. word_step base_address lbls n i r v) w rs"

definition records_unknown_only ::
  "(string list \<Rightarrow> asm_state \<Rightarrow> py_error + (int \<times> asm_state)) \<Rightarrow> bool" where
  \<comment> \<open>an encoder that leaves the assembler as it was, or appends one relocation, at the
      current address, for a label that is not in the label table\<close>
  "records_unknown_only enc =
     (\<forall>ops st w st'. enc ops st = Inr (w, st') \<longrightarrow>
        st' = st \<or> (\<exists>label kind. labels st label = None \<and> st' = add_relocation label kind st))"

definition run_result ::
  "py_error + asm_state \<Rightarrow> py_error + (int list \<times> (int \<times> string \<times> string) list \<times> diagnostic list)"
  where
  \<comment> \<open>what a run leaves behind: the exception, or the machine code, the relocation list
      and the diagnostics\<close>
  "run_result r =
     (case r of Inl e \<Rightarrow> Inl e | Inr st \<Rightarrow> Inr (machine_code st, relocations st, stderr st))"

definition pass1_label :: "string \<Rightarrow> string option" where
  \<comment> \<open>the label that a source line defines in pass 1, if any\<close>
  "pass1_label line0 =
     (let line = strip line0 in
      if line = [] \<or> startswith line '';'' \<or> startswith line ''//'' then None
      else if contains '':'' line \<and> \<not> contains ''['' line
           then Some (strip (fst (split_once CHR '':'' line)))
           else None)"

definition pass2_label :: "string \<Rightarrow> string option" where
  \<comment> \<open>the label that a source line defines in pass 2, if any\<close>
  "pass2_label line0 =
     (let line1 = foldl remove_comment (strip line0) ['';'', ''//'', ''#''] in
      if line1 = [] then None
      else if contains '':'' line1 \<and> \<not> contains ''['' line1
           then Some (strip (fst (split_once CHR '':'' line1)))
           else None)"

definition main :: "string \<Rightarrow> int \<Rightarrow> string \<Rightarrow> string \<Rightarrow> filesystem \<Rightarrow> py_error option \<times> filesystem"
  where
  \<comment> \<open>the two calls in the \<open>try\<close> block of \<open>main\<close>, on the text of the input file: a fresh
      assembler assembles it at the base address and writes the executable\<close>
  "main source base_address output entry fs =
     (case assemble source base_address new_assembler of
        Inl e \<Rightarrow> (Some e, fs)
      | Inr st \<Rightarrow> generate_macho output entry st fs)"

section \<open>Evaluation support\<close>

text \<open>The register dictionary, computed once.\<close>

lemma init_registers_table:
  "init_registers =
    [(''x0'', 0), (''w0'', 0), (''x1'', 1), (''w1'', 1), (''x2'', 2), (''w2'', 2),
     (''x3'', 3), (''w3'', 3), (''x4'', 4), (''w4'', 4), (''x5'', 5), (''w5'', 5),
     (''x6'', 6), (''w6'', 6), (''x7'', 7), (''w7'', 7), (''x8'', 8), (''w8'', 8),
     (''x9'', 9), (''w9'', 9), (''x10'', 10), (''w10'', 10), (''x11'', 11), (''w11'', 11),
     (''x12'', 12), (''w12'', 12), (''x13'', 13), (''w13'', 13), (''x14'', 14), (''w14'', 14),
     (''x15'', 15), (''w15'', 15), (''x16'', 16), (''w16'', 16), (''x17'', 17), (''w17'', 17),
     (''x18'', 18), (''w18'', 18), (''x19'', 19), (''w19'', 19), (''x20'', 20), (''w20'', 20),
     (''x21'', 21), (''w21'', 21), (''x22'', 22), (''w22'', 22), (''x23'', 23), (''w23'', 23),
     (''x24'', 24), (''w24'', 24), (''x25'', 25), (''w25'', 25), (''x26'', 26), (''w26'', 26),
     (''x27'', 27), (''w27'', 27), (''x28'', 28), (''w28'', 28), (''x29'', 29), (''w29'', 29),
     (''x30'', 30), (''w30'', 30), (''v0'', 0), (''s0'', 0), (''d0'', 0), (''q0'', 0),
     (''v1'', 1), (''s1'', 1), (''d1'', 1), (''q1'', 1), (''v2'', 2), (''s2'', 2),
     (''d2'', 2), (''q2'', 2), (''v3'', 3), (''s3'', 3), (''d3'', 3), (''q3'', 3),
     (''v4'', 4), (''s4'', 4), (''d4'', 4), (''q4'', 4), (''v5'', 5), (''s5'', 5),
     (''d5'', 5), (''q5'', 5), (''v6'', 6), (''s6'', 6), (''d6'', 6), (''q6'', 6),
     (''v7'', 7), (''s7'', 7), (''d7'', 7), (''q7'', 7), (''v8'', 8), (''s8'', 8),
     (''d8'', 8), (''q8'', 8), (''v9'', 9), (''s9'', 9), (''d9'', 9), (''q9'', 9),
     (''v10'', 10), (''s10'', 10), (''d10'', 10), (''q10'', 10), (''v11'', 11), (''s11'', 11),
     (''d11'', 11), (''q11'', 11), (''v12'', 12), (''s12'', 12), (''d12'', 12), (''q12'', 12),
     (''v13'', 13), (''s13'', 13), (''d13'', 13), (''q13'', 13), (''v14'', 14), (''s14'', 14),
     (''d14'', 14), (''q14'', 14), (''v15'', 15), (''s15'', 15), (''d15'', 15), (''q15'', 15),
     (''v16'', 16), (''s16'', 16), (''d16'', 16), (''q16'', 16), (''v17'', 17), (''s17'', 17),
     (''d17'', 17), (''q17'', 17), (''v18'', 18), (''s18'', 18), (''d18'', 18), (''q18'', 18),
     (''v19'', 19), (''s19'', 19), (''d19'', 19), (''q19'', 19), (''v20'', 20), (''s20'', 20),
     (''d20'', 20), (''q20'', 20), (''v21'', 21), (''s21'', 21), (''d21'', 21), (''q21'', 21),
     (''v22'', 22), (''s22'', 22), (''d22'', 22), (''q22'', 22), (''v23'', 23), (''s23'', 23),
     (''d23'', 23), (''q23'', 23), (''v24'', 24), (''s24'', 24), (''d24'', 24), (''q24'', 24),
     (''v25'', 25), (''s25'', 25), (''d25'', 25), (''q25'', 25), (''v26'', 26), (''s26'', 26),
     (''d26'', 26), (''q26'', 26), (''v27'', 27), (''s27'', 27), (''d27'', 27), (''q27'', 27),
     (''v28'', 28), (''s28'', 28), (''d28'', 28), (''q28'', 28), (''v29'', 29), (''s29'', 29),
     (''d29'', 29), (''q29'', 29), (''v30'', 30), (''s30'', 30), (''d30'', 30), (''q30'', 30),
     (''v31'', 31), (''s31'', 31), (''d31'', 31), (''q31'', 31), (''xzr'', 31), (''wzr'', 31),
     (''sp'', 31), (''lr'', 30), (''x30'', 30), (''fp'', 29), (''x29'', 29)]"
  by code_simp

declare init_registers_table [code]

section \<open>Pass 2 on the reference program\<close>

text \<open>
  C1. The claim: pass 2 splits an instruction line into a mnemonic and its comma-separated
  operands, and the program \<open>_start: / mov x0, #42 / mov x16, #1 / svc #0x80\<close> assembles
  at base \<open>0x100000000\<close> to three words, the first a MOVZ of x0 with immediate 42.
  What the code does: the comment loop cuts \<open>mov x0, #42\<close> at the \<open>#\<close>, leaving the single
  operand \<open>x0\<close>; commas are replaced by blanks before the operand text is split at commas,
  so \<open>add x3, x0, x1\<close> has the one operand \<open>x3 x0 x1\<close>; and the program does not
  assemble: \<open>_encode_mov\<close> reads \<open>ops[1]\<close> of a one-element list and IndexError leaves
  \<open>assemble\<close>.
\<close>

theorem reference_program_raises:
  "foldl remove_comment (strip ''    mov x0, #42'') ['';'', ''//'', ''#''] = ''mov x0, ''
   \<and> operands (tokenize ''mov x0, '') = [''x0'']
   \<and> operands (tokenize ''add x3, x0, x1'') = [''x3 x0 x1'']
   \<and> (case assemble (''_start:'' @ [CHR 0x0A] @ ''    mov x0, #42'' @ [CHR 0x0A]
                       @ ''    mov x16, #1'' @ [CHR 0x0A] @ ''    svc #0x80'')
                      0x100000000 new_assembler of
         Inl e \<Rightarrow> e = IndexError
       | Inr st \<Rightarrow> False)"
  by code_simp

section \<open>Pass 1 and comment lines\<close>

text \<open>
  C3. The claim: pass 1 strips comments, so a line that is only a comment (\<open>;\<close>, \<open>//\<close> or
  \<open>#\<close>) never advances the address, and a label's address is the base plus 4 times the
  number of words pass 2 emits before it.
  What the code does: pass 1 skips a line that starts with \<open>;\<close> or \<open>//\<close> but counts a line
  that starts with \<open>#\<close> as an instruction, while pass 2 emits nothing for it. After the
  line \<open># c\<close>, pass 1 puts the label \<open>x\<close> at base + 4 although no word precedes it, and in
  \<open>b end / # c / end: / nop\<close> the branch is encoded with word offset 2, past the \<open>nop\<close> at
  word 1 that the label marks.
\<close>

theorem hash_comment_line_advances_pass1:
  "labels (pass1 [''# c'', ''x:'', ''nop''] (new_assembler\<lparr>address := 0x100000000\<rparr>)) ''x''
     = Some 0x100000004
   \<and> (case assemble_instruction ''# c'' (new_assembler\<lparr>address := 0x100000000\<rparr>) of
         Inl e \<Rightarrow> False
       | Inr (encoded, st) \<Rightarrow> encoded = None \<and> address st = 0x100000000)
   \<and> (case assemble (''b end'' @ [CHR 0x0A] @ ''# c'' @ [CHR 0x0A] @ ''end:'' @ [CHR 0x0A]
                       @ ''nop'') 0x100000000 new_assembler of
         Inl e \<Rightarrow> False
       | Inr st \<Rightarrow> machine_code st = [0x14000002, 0xD503201F]
                   \<and> labels st ''end'' = Some 0x100000004)"
  by code_simp

section \<open>Undefined labels\<close>

lemma undefined_label_run:
  "(case assemble (''_start:'' @ [CHR 0x0A] @ ''b missing_label'') 0x100000000 new_assembler of
      Inl e \<Rightarrow> False
    | Inr st \<Rightarrow>
        machine_code st = [0x14000000]
        \<and> labels st ''_start'' = Some 0x100000000
        \<and> relocations st = [(0x100000000, ''missing_label'', ''b'')]
        \<and> stderr st = [UndefinedLabel ''missing_label''])"
  by code_simp

text \<open>
  C5. A relocation whose label is not in the label table does not raise: the resolver's
  step returns normally, appends the warning to the diagnostic stream and changes neither
  the machine code nor anything else; and the branch encoder, for a label that is not in
  the table, stores offset bits 0 to 25 as zero and records the relocation. (The run of
  \<open>_start: / b missing_label\<close> is evaluated in \<open>undefined_label_run\<close>: it returns with one
  warning and the word \<open>0x14000000\<close>.)
\<close>

theorem undefined_label_warns_and_skips:
  assumes "labels st label = None" and "strip op = label"
  shows "resolve_one base_address st (offset, label, rel_type)
           = Inr (st\<lparr>stderr := stderr st @ [UndefinedLabel label]\<rparr>)
         \<and> encode_b_bl mnem [op] st
           = Inr (shl (bit_of (mnem = ''bl'')) 31 OR shl 5 26 OR 0,
                  add_relocation label ''b'' st)
         \<and> (shl (bit_of (mnem = ''bl'')) 31 OR shl 5 26 OR 0) AND 0x3FFFFFF = (0::int)"
  using assms
  by (cases "mnem = ''bl''")
     (simp_all add: resolve_one_def encode_b_bl_def getitem_def list_index_def and_then_def)

theorem undefined_label_warns_and_skips_witness:
  "labels new_assembler ''missing_label'' = None \<and> strip ''missing_label'' = ''missing_label''
   \<and> resolve_one 0x100000000 new_assembler (0x100000000, ''missing_label'', ''b'')
       = Inr (new_assembler\<lparr>stderr := stderr new_assembler @ [UndefinedLabel ''missing_label'']\<rparr>)
   \<and> encode_b_bl ''b'' [''missing_label''] new_assembler
       = Inr (shl (bit_of (''b'' = ''bl'')) 31 OR shl 5 26 OR 0,
              add_relocation ''missing_label'' ''b'' new_assembler)"
proof -
  have l: "labels new_assembler ''missing_label'' = None"
    by (simp add: new_assembler_def)
  have s: "strip ''missing_label'' = ''missing_label''"
    by code_simp
  show ?thesis
    using l s undefined_label_warns_and_skips [OF l s, of "0x100000000" "0x100000000" "''b''" "''b''"]
    by simp
qed

section \<open>Missing entry point\<close>

text \<open>
  C6. If the entry-point label is not in the label table, \<open>generate_macho\<close> raises and the
  file system is what it was: no file is created or written.
\<close>

theorem missing_entry_point_writes_nothing:
  "labels st entry_point = None \<Longrightarrow>
   generate_macho output_file entry_point st fs = (Some (EntryPointNotFound entry_point), fs)"
  by (simp add: generate_macho_def)

theorem missing_entry_point_writes_nothing_witness:
  "labels new_assembler ''nope'' = None
   \<and> generate_macho ''a.out'' ''nope'' new_assembler \<lparr>files = Map.empty, writable = (\<lambda>p. True)\<rparr>
       = (Some (EntryPointNotFound ''nope''), \<lparr>files = Map.empty, writable = (\<lambda>p. True)\<rparr>)"
proof -
  have l: "labels new_assembler ''nope'' = None"
    by (simp add: new_assembler_def)
  show ?thesis
    using l missing_entry_point_writes_nothing [OF l] by simp
qed

section \<open>Bit fields of the relocated words\<close>

lemma and_mask_26: "(x::int) AND 0x3FFFFFF = take_bit 26 x"
  by (simp add: take_bit_eq_mask mask_eq_exp_minus_1)
lemma and_mask_19: "(x::int) AND 0x7FFFF = take_bit 19 x"
  by (simp add: take_bit_eq_mask mask_eq_exp_minus_1)
lemma and_mask_14: "(x::int) AND 0x3FFF = take_bit 14 x"
  by (simp add: take_bit_eq_mask mask_eq_exp_minus_1)
lemma and_mask_2: "(x::int) AND 0x3 = take_bit 2 x"
  by (simp add: take_bit_eq_mask mask_eq_exp_minus_1)

lemma bit_keep_b: "bit (0xFC000000::int) n \<longleftrightarrow> 26 \<le> n \<and> n < 32"
proof -
  have "(0xFC000000::int) = push_bit 26 (mask 6)"
    by (simp add: mask_eq_exp_minus_1 push_bit_eq_mult)
  then show ?thesis
    by (simp only: bit_push_bit_iff bit_mask_iff) auto
qed

lemma bit_keep_cond: "bit (0xFF00001F::int) n \<longleftrightarrow> n < 5 \<or> (24 \<le> n \<and> n < 32)"
proof -
  have "(0xFF00001F::int) = push_bit 24 (mask 8) OR mask 5"
    by (simp add: mask_eq_exp_minus_1 push_bit_eq_mult)
  then show ?thesis
    by (simp only: bit_or_iff bit_push_bit_iff bit_mask_iff) auto
qed

lemma bit_keep_tb: "bit (0xFFF8001F::int) n \<longleftrightarrow> n < 5 \<or> (19 \<le> n \<and> n < 32)"
proof -
  have "(0xFFF8001F::int) = push_bit 19 (mask 13) OR mask 5"
    by (simp add: mask_eq_exp_minus_1 push_bit_eq_mult)
  then show ?thesis
    by (simp only: bit_or_iff bit_push_bit_iff bit_mask_iff) auto
qed

lemma bit_keep_adr: "bit (0x9F00001F::int) n \<longleftrightarrow> n < 5 \<or> (24 \<le> n \<and> n < 29) \<or> n = 31"
proof -
  have "(0x9F00001F::int) = push_bit 31 (mask 1) OR push_bit 24 (mask 5) OR mask 5"
    by (simp add: mask_eq_exp_minus_1 push_bit_eq_mult)
  then show ?thesis
    by (simp only: bit_or_iff bit_push_bit_iff bit_mask_iff) auto
qed

lemma bit_32bit: "0 \<le> (k::int) \<Longrightarrow> k < 2 ^ 32 \<Longrightarrow> bit k n \<Longrightarrow> n < 32"
proof -
  assume a: "0 \<le> k" "k < 2 ^ 32" "bit k n"
  then have "take_bit 32 k = k" by (simp add: take_bit_int_eq_self)
  then have "bit (take_bit 32 k) n" using a by simp
  then show ?thesis by (simp add: bit_take_bit_iff)
qed

lemma frame_b:
  assumes "0 \<le> (i::int)" "i < 2 ^ 32" "26 \<le> n"
  shows "bit ((i AND 0xFC000000) OR (x AND 0x3FFFFFF)) n = bit i n"
proof -
  have hi: "bit i n \<Longrightarrow> n < 32"
    using assms bit_32bit by blast
  show ?thesis
    unfolding and_mask_26 bit_or_iff bit_and_iff bit_keep_b bit_take_bit_iff
    using assms(3) hi by auto
qed

lemma frame_cond:
  assumes "0 \<le> (i::int)" "i < 2 ^ 32" "n < 5 \<or> 24 \<le> n"
  shows "bit ((i AND 0xFF00001F) OR push_bit 5 (x AND 0x7FFFF)) n = bit i n"
proof -
  have hi: "bit i n \<Longrightarrow> n < 32"
    using assms bit_32bit by blast
  show ?thesis
    unfolding and_mask_19 bit_or_iff bit_and_iff bit_keep_cond bit_take_bit_iff bit_push_bit_iff
    using assms(3) hi by auto
qed

lemma frame_tb:
  assumes "0 \<le> (i::int)" "i < 2 ^ 32" "n < 5 \<or> 19 \<le> n"
  shows "bit ((i AND 0xFFF8001F) OR push_bit 5 (x AND 0x3FFF)) n = bit i n"
proof -
  have hi: "bit i n \<Longrightarrow> n < 32"
    using assms bit_32bit by blast
  show ?thesis
    unfolding and_mask_14 bit_or_iff bit_and_iff bit_keep_tb bit_take_bit_iff bit_push_bit_iff
    using assms(3) hi by auto
qed

lemma frame_adr:
  assumes "0 \<le> (i::int)" "i < 2 ^ 32" "n < 5 \<or> (24 \<le> n \<and> n < 29) \<or> 31 \<le> n"
  shows "bit ((i AND 0x9F00001F) OR push_bit 29 (x AND 0x3) OR push_bit 5 (y AND 0x7FFFF)) n
         = bit i n"
proof -
  have hi: "bit i n \<Longrightarrow> n < 32"
    using assms bit_32bit by blast
  show ?thesis
    unfolding and_mask_19 and_mask_2 bit_or_iff bit_and_iff bit_keep_adr bit_take_bit_iff
      bit_push_bit_iff
    using assms(3) hi by auto
qed

lemma patch_word_b:
  "rel_type \<in> set [''b'', ''bl''] \<Longrightarrow>
   patch_word rel_type target offset instr
     = (instr AND 0xFC000000) OR (shr (target - offset) 2 AND 0x3FFFFFF)"
  unfolding patch_word_def Let_def by (rule if_P)

lemma patch_word_cond:
  "rel_type \<in> set [''bcond'', ''cb'', ''cbz'', ''cbnz''] \<Longrightarrow>
   patch_word rel_type target offset instr
     = (instr AND 0xFF00001F) OR shl (shr (target - offset) 2 AND 0x7FFFF) 5"
  unfolding patch_word_def Let_def by auto

lemma patch_word_tb:
  "rel_type \<in> set [''tb'', ''tbz'', ''tbnz''] \<Longrightarrow>
   patch_word rel_type target offset instr
     = (instr AND 0xFFF8001F) OR shl (shr (target - offset) 2 AND 0x3FFF) 5"
  unfolding patch_word_def Let_def by auto

lemma patch_word_adr:
  "rel_type \<in> set [''adr'', ''adrp''] \<Longrightarrow>
   patch_word rel_type target offset instr
     = (instr AND 0x9F00001F)
       OR shl ((if rel_type = ''adrp'' then shr (target - offset) 12 else target - offset)
               AND 0x3) 29
       OR shl (shr (if rel_type = ''adrp'' then shr (target - offset) 12 else target - offset) 2
               AND 0x7FFFF) 5"
  unfolding patch_word_def Let_def by auto

lemma patch_word_other:
  "rel_type \<notin> set [''b'', ''bl'', ''bcond'', ''cb'', ''cbz'', ''cbnz'', ''tb'', ''tbz'', ''tbnz'',
                     ''adr'', ''adrp''] \<Longrightarrow>
   patch_word rel_type target offset instr = instr"
  unfolding patch_word_def Let_def by auto

lemma patch_word_frame:
  assumes "0 \<le> instr" "instr < 2 ^ 32" "n \<notin> field_bits rel_type"
  shows "bit (patch_word rel_type target offset instr) n = bit instr n"
proof -
  consider (b) "rel_type \<in> set [''b'', ''bl'']"
    | (c) "rel_type \<notin> set [''b'', ''bl'']"
          "rel_type \<in> set [''bcond'', ''cb'', ''cbz'', ''cbnz'']"
    | (t) "rel_type \<notin> set [''b'', ''bl'']"
          "rel_type \<notin> set [''bcond'', ''cb'', ''cbz'', ''cbnz'']"
          "rel_type \<in> set [''tb'', ''tbz'', ''tbnz'']"
    | (a) "rel_type \<notin> set [''b'', ''bl'']"
          "rel_type \<notin> set [''bcond'', ''cb'', ''cbz'', ''cbnz'']"
          "rel_type \<notin> set [''tb'', ''tbz'', ''tbnz'']"
          "rel_type \<in> set [''adr'', ''adrp'']"
    | (o) "rel_type \<notin> set [''b'', ''bl'']"
          "rel_type \<notin> set [''bcond'', ''cb'', ''cbz'', ''cbnz'']"
          "rel_type \<notin> set [''tb'', ''tbz'', ''tbnz'']"
          "rel_type \<notin> set [''adr'', ''adrp'']"
    by blast
  then show ?thesis
  proof cases
    case b
    then have "field_bits rel_type = {0..25}"
      unfolding field_bits_def by (rule if_P)
    then have "26 \<le> n" using assms(3) by auto
    then show ?thesis
      unfolding patch_word_b [OF b] using assms(1,2) by (rule frame_b [rotated 2])
  next
    case c
    then have "field_bits rel_type = {5..23}"
      unfolding field_bits_def by simp
    then have "n < 5 \<or> 24 \<le> n" using assms(3) by auto
    then show ?thesis
      unfolding patch_word_cond [OF c(2)] using assms(1,2) by (rule frame_cond [rotated 2])
  next
    case t
    then have "field_bits rel_type = {5..18}"
      unfolding field_bits_def by simp
    then have "n < 5 \<or> 19 \<le> n" using assms(3) by auto
    then show ?thesis
      unfolding patch_word_tb [OF t(3)] using assms(1,2) by (rule frame_tb [rotated 2])
  next
    case a
    then have "field_bits rel_type = {29, 30} \<union> {5..23}"
      unfolding field_bits_def by simp
    then have "n < 5 \<or> (24 \<le> n \<and> n < 29) \<or> 31 \<le> n" using assms(3) by auto
    then show ?thesis
      unfolding patch_word_adr [OF a(4)] using assms(1,2) by (rule frame_adr [rotated 2])
  next
    case o
    then show ?thesis
      unfolding patch_word_def Let_def by simp
  qed
qed

text \<open>
  C8. For a relocation whose label is defined and whose word index lies in the buffer,
  where the word there is a 32-bit word, the resolver's step replaces that one word and
  nothing else, and the new word differs from the old one only inside the field of the
  relocation kind: bits 0-25 for \<open>b\<close>/\<open>bl\<close>, bits 5-23 for conditional and compare-zero
  branches, bits 5-18 for test-bit branches, bits 29-30 and 5-23 for \<open>adr\<close>/\<open>adrp\<close>.
\<close>

theorem resolve_one_patches_only_field:
  assumes "labels st label = Some target"
    and "idx = (offset - base_address) div 4"
    and "0 \<le> idx" and "idx < int (length (machine_code st))"
    and "0 \<le> machine_code st ! nat idx" and "machine_code st ! nat idx < 2 ^ 32"
  shows "resolve_one base_address st (offset, label, rel_type)
           = Inr (st\<lparr>machine_code := (machine_code st)
                    [nat idx := patch_word rel_type target offset (machine_code st ! nat idx)]\<rparr>)
         \<and> (\<forall>n. n \<notin> field_bits rel_type \<longrightarrow>
                bit (patch_word rel_type target offset (machine_code st ! nat idx)) n
                  = bit (machine_code st ! nat idx) n)"
proof
  show "resolve_one base_address st (offset, label, rel_type)
           = Inr (st\<lparr>machine_code := (machine_code st)
                    [nat idx := patch_word rel_type target offset (machine_code st ! nat idx)]\<rparr>)"
    using assms(1-4)
    by (simp add: resolve_one_def getitem_def setitem_def list_index_def and_then_def Let_def)
  show "\<forall>n. n \<notin> field_bits rel_type \<longrightarrow>
          bit (patch_word rel_type target offset (machine_code st ! nat idx)) n
            = bit (machine_code st ! nat idx) n"
    using patch_word_frame [OF assms(5,6)] by blast
qed

theorem resolve_one_patches_only_field_witness:
  "(let S = new_assembler\<lparr>labels := [''x'' \<mapsto> 0x100000008],
                             machine_code := [0x14000000, 0xD503201F]\<rparr>
    in labels S ''x'' = Some 0x100000008
       \<and> (0::int) = (0x100000000 - 0x100000000) div 4
       \<and> (0::int) \<le> 0 \<and> 0 < int (length (machine_code S))
       \<and> 0 \<le> machine_code S ! nat 0 \<and> machine_code S ! nat 0 < 2 ^ 32
       \<and> resolve_one 0x100000000 S (0x100000000, ''x'', ''b'')
           = Inr (S\<lparr>machine_code := (machine_code S)
                    [nat 0 := patch_word ''b'' 0x100000008 0x100000000 (machine_code S ! nat 0)]\<rparr>)
       \<and> (\<forall>n. n \<notin> field_bits ''b'' \<longrightarrow>
              bit (patch_word ''b'' 0x100000008 0x100000000 (machine_code S ! nat 0)) n
                = bit (machine_code S ! nat 0) n))"
proof -
  define S where "S = new_assembler\<lparr>labels := [''x'' \<mapsto> 0x100000008],
                                      machine_code := [0x14000000, 0xD503201F]\<rparr>"
  have h1: "labels S ''x'' = Some 0x100000008"
    by (simp add: S_def)
  have h2: "(0::int) = (0x100000000 - 0x100000000) div 4"
    by simp
  have h3: "(0::int) \<le> 0"
    by simp
  have h4: "0 < int (length (machine_code S))"
    by (simp add: S_def)
  have h5: "0 \<le> machine_code S ! nat 0"
    by (simp add: S_def)
  have h6: "machine_code S ! nat 0 < 2 ^ 32"
    by (simp add: S_def)
  note r = resolve_one_patches_only_field [OF h1 h2 h3 h4 h5 h6, of "''b''"]
  have "labels S ''x'' = Some 0x100000008
       \<and> (0::int) = (0x100000000 - 0x100000000) div 4
       \<and> (0::int) \<le> 0 \<and> 0 < int (length (machine_code S))
       \<and> 0 \<le> machine_code S ! nat 0 \<and> machine_code S ! nat 0 < 2 ^ 32
       \<and> resolve_one 0x100000000 S (0x100000000, ''x'', ''b'')
           = Inr (S\<lparr>machine_code := (machine_code S)
                    [nat 0 := patch_word ''b'' 0x100000008 0x100000000 (machine_code S ! nat 0)]\<rparr>)
       \<and> (\<forall>n. n \<notin> field_bits ''b'' \<longrightarrow>
              bit (patch_word ''b'' 0x100000008 0x100000000 (machine_code S ! nat 0)) n
                = bit (machine_code S ! nat 0) n)"
    using h1 h2 h3 h4 h5 h6 r by blast
  then show ?thesis
    unfolding Let_def S_def .
qed

section \<open>Relocation resolution as a function on words\<close>

lemma disjoint_bits:
  assumes "(K::int) AND V = 0"
  shows "\<not> (bit K n \<and> bit V n)"
proof
  assume "bit K n \<and> bit V n"
  then have "bit (K AND V) n"
    by (simp add: bit_and_iff)
  then show False
    using assms by simp
qed

lemma setter_id: "setter (\<lambda>w. w)"
  unfolding setter_def by (rule exI [of _ "-1"], rule exI [of _ 0]) simp

lemma setter_idem:
  assumes "setter f"
  shows "f (f w) = f w"
proof -
  obtain K V where kv: "K AND V = 0" and f: "\<And>w. f w = (w AND K) OR V"
    using assms unfolding setter_def by blast
  have "((w AND K) OR V) AND K OR V = (w AND K) OR V"
    using disjoint_bits [OF kv] by (auto simp add: bit_eq_iff bit_and_iff bit_or_iff)
  then show ?thesis by (simp add: f)
qed

lemma setter_comp:
  assumes "setter f" and "setter g"
  shows "setter (\<lambda>w. g (f w))"
proof -
  obtain K V where kv: "K AND V = 0" and f: "\<And>w. f w = (w AND K) OR V"
    using assms(1) unfolding setter_def by blast
  obtain K' V' where kv': "K' AND V' = 0" and g: "\<And>w. g w = (w AND K') OR V'"
    using assms(2) unfolding setter_def by blast
  have 1: "(K AND K') AND ((V AND K') OR V') = 0"
    using disjoint_bits [OF kv] disjoint_bits [OF kv']
    by (auto simp add: bit_eq_iff bit_and_iff bit_or_iff)
  have 2: "\<And>w. g (f w) = (w AND (K AND K')) OR ((V AND K') OR V')"
    unfolding f g by (auto simp add: bit_eq_iff bit_and_iff bit_or_iff)
  show ?thesis
    unfolding setter_def using 1 2 by blast
qed

lemma keep_value_b: "(0xFC000000::int) AND (x AND 0x3FFFFFF) = 0"
proof (rule bit_eqI)
  fix n
  show "bit (0xFC000000 AND (x AND 0x3FFFFFF)) n = bit (0::int) n"
    unfolding and_mask_26 bit_and_iff bit_keep_b bit_take_bit_iff by auto
qed

lemma keep_value_cond: "(0xFF00001F::int) AND push_bit 5 (x AND 0x7FFFF) = 0"
proof (rule bit_eqI)
  fix n
  show "bit (0xFF00001F AND push_bit 5 (x AND 0x7FFFF)) n = bit (0::int) n"
    unfolding and_mask_19 bit_and_iff bit_keep_cond bit_take_bit_iff bit_push_bit_iff by auto
qed

lemma keep_value_tb: "(0xFFF8001F::int) AND push_bit 5 (x AND 0x3FFF) = 0"
proof (rule bit_eqI)
  fix n
  show "bit (0xFFF8001F AND push_bit 5 (x AND 0x3FFF)) n = bit (0::int) n"
    unfolding and_mask_14 bit_and_iff bit_keep_tb bit_take_bit_iff bit_push_bit_iff by auto
qed

lemma keep_value_adr:
  "(0x9F00001F::int) AND (push_bit 29 (x AND 0x3) OR push_bit 5 (y AND 0x7FFFF)) = 0"
proof (rule bit_eqI)
  fix n
  show "bit (0x9F00001F AND (push_bit 29 (x AND 0x3) OR push_bit 5 (y AND 0x7FFFF))) n
        = bit (0::int) n"
    unfolding and_mask_19 and_mask_2 bit_and_iff bit_or_iff bit_keep_adr bit_take_bit_iff
      bit_push_bit_iff
    by auto
qed

lemma setter_patch_word: "setter (patch_word rel_type target offset)"
proof -
  consider (b) "rel_type \<in> set [''b'', ''bl'']"
    | (c) "rel_type \<in> set [''bcond'', ''cb'', ''cbz'', ''cbnz'']"
    | (t) "rel_type \<in> set [''tb'', ''tbz'', ''tbnz'']"
    | (a) "rel_type \<in> set [''adr'', ''adrp'']"
    | (o) "rel_type \<notin> set [''b'', ''bl'', ''bcond'', ''cb'', ''cbz'', ''cbnz'', ''tb'', ''tbz'',
                             ''tbnz'', ''adr'', ''adrp'']"
    by auto
  then show ?thesis
  proof cases
    case b
    show ?thesis
      unfolding setter_def patch_word_b [OF b]
      using keep_value_b by blast
  next
    case c
    show ?thesis
      unfolding setter_def patch_word_cond [OF c]
      using keep_value_cond by blast
  next
    case t
    show ?thesis
      unfolding setter_def patch_word_tb [OF t]
      using keep_value_tb by blast
  next
    case a
    have "\<And>i K x y. (i AND K) OR x OR y = (i AND K) OR ((x OR y)::int)"
      by (simp add: or.assoc)
    then show ?thesis
      unfolding setter_def patch_word_adr [OF a]
      using keep_value_adr by blast
  next
    case o
    show ?thesis
      unfolding patch_word_other [OF o] by (rule setter_id)
  qed
qed

lemma setter_word_step: "setter (word_step base_address lbls n i r)"
proof -
  obtain offset label rel_type where r: "r = (offset, label, rel_type)"
    by (cases r) auto
  show ?thesis
  proof (cases "lbls label")
    case None
    then have "word_step base_address lbls n i r = (\<lambda>w. w)"
      unfolding r word_step_def by simp
    then show ?thesis using setter_id by simp
  next
    case (Some target)
    show ?thesis
    proof (cases "(offset - base_address) div 4 < int n
                  \<and> (if (offset - base_address) div 4 < 0
                      then int n + (offset - base_address) div 4
                      else (offset - base_address) div 4) = int i")
      case True
      then have "word_step base_address lbls n i r = patch_word rel_type target offset"
        unfolding r word_step_def Let_def using Some by simp
      then show ?thesis using setter_patch_word by simp
    next
      case False
      then have "word_step base_address lbls n i r = (\<lambda>w. w)"
        unfolding r word_step_def Let_def using Some by (auto split: if_splits)
      then show ?thesis using setter_id by simp
    qed
  qed
qed

lemma setter_word_after: "setter (word_after base_address lbls n i rs)"
proof (induction rs rule: rev_induct)
  case Nil
  show ?case
    unfolding word_after_def using setter_id by simp
next
  case (snoc r rs)
  have "word_after base_address lbls n i (rs @ [r])
        = (\<lambda>w. word_step base_address lbls n i r (word_after base_address lbls n i rs w))"
    unfolding word_after_def by simp
  then show ?case
    using setter_comp [OF snoc.IH setter_word_step] by simp
qed

lemma resolve_one_fields:
  assumes "resolve_one base_address st r = Inr st'"
  shows "labels st' = labels st \<and> relocations st' = relocations st
         \<and> address st' = address st
         \<and> length (machine_code st') = length (machine_code st)"
proof -
  obtain offset label rel_type where r: "r = (offset, label, rel_type)"
    by (cases r) auto
  show ?thesis
    using assms unfolding r resolve_one_def getitem_def setitem_def list_index_def
      and_then_def Let_def
    by (auto split: option.splits if_splits sum.splits)
qed

lemma resolve_one_pointwise:
  assumes "resolve_one base_address st r = Inr st'" and "i < length (machine_code st)"
  shows "machine_code st' ! i
         = word_step base_address (labels st) (length (machine_code st)) i r (machine_code st ! i)"
proof -
  obtain offset label rel_type where r: "r = (offset, label, rel_type)"
    by (cases r) auto
  show ?thesis
    using assms unfolding r resolve_one_def word_step_def getitem_def setitem_def
      list_index_def and_then_def Let_def
    by (auto simp add: nth_list_update split: option.splits if_splits sum.splits)
qed

lemma resolve_one_succeeds_alike:
  assumes "resolve_one base_address st r = Inr st'"
    and "labels st2 = labels st" and "length (machine_code st2) = length (machine_code st)"
  shows "\<exists>st2'. resolve_one base_address st2 r = Inr st2'"
proof -
  obtain offset label rel_type where r: "r = (offset, label, rel_type)"
    by (cases r) auto
  show ?thesis
    using assms unfolding r resolve_one_def getitem_def setitem_def list_index_def
      and_then_def Let_def
    by (auto split: option.splits if_splits sum.splits)
qed

lemma resolve_loop_fields:
  "resolve_loop base_address rs st = Inr st' \<Longrightarrow>
   labels st' = labels st \<and> relocations st' = relocations st \<and> address st' = address st
   \<and> length (machine_code st') = length (machine_code st)"
proof (induction rs arbitrary: st)
  case Nil
  then show ?case by simp
next
  case (Cons r rs)
  then obtain st1 where 1: "resolve_one base_address st r = Inr st1"
    and 2: "resolve_loop base_address rs st1 = Inr st'"
    by (auto simp add: and_then_def split: sum.splits)
  show ?case
    using resolve_one_fields [OF 1] Cons.IH [OF 2] by simp
qed

lemma resolve_loop_pointwise:
  "resolve_loop base_address rs st = Inr st' \<Longrightarrow> i < length (machine_code st) \<Longrightarrow>
   machine_code st' ! i
     = word_after base_address (labels st) (length (machine_code st)) i rs (machine_code st ! i)"
proof (induction rs arbitrary: st)
  case Nil
  then show ?case by (simp add: word_after_def)
next
  case (Cons r rs)
  then obtain st1 where 1: "resolve_one base_address st r = Inr st1"
    and 2: "resolve_loop base_address rs st1 = Inr st'"
    by (auto simp add: and_then_def split: sum.splits)
  have f: "labels st1 = labels st" "length (machine_code st1) = length (machine_code st)"
    using resolve_one_fields [OF 1] by simp_all
  have "machine_code st' ! i
        = word_after base_address (labels st1) (length (machine_code st1)) i rs
            (machine_code st1 ! i)"
    using Cons.IH [OF 2] Cons.prems(2) f by simp
  then show ?case
    using resolve_one_pointwise [OF 1 Cons.prems(2)] f by (simp add: word_after_def)
qed

lemma resolve_loop_succeeds_alike:
  "resolve_loop base_address rs st = Inr st' \<Longrightarrow> labels st2 = labels st \<Longrightarrow>
   length (machine_code st2) = length (machine_code st) \<Longrightarrow>
   \<exists>st2'. resolve_loop base_address rs st2 = Inr st2'"
proof (induction rs arbitrary: st st2)
  case Nil
  then show ?case by simp
next
  case (Cons r rs)
  then obtain st1 where 1: "resolve_one base_address st r = Inr st1"
    and 2: "resolve_loop base_address rs st1 = Inr st'"
    by (auto simp add: and_then_def split: sum.splits)
  obtain st3 where 3: "resolve_one base_address st2 r = Inr st3"
    using resolve_one_succeeds_alike [OF 1 Cons.prems(2,3)] by blast
  have "labels st3 = labels st1" "length (machine_code st3) = length (machine_code st1)"
    using resolve_one_fields [OF 1] resolve_one_fields [OF 3] Cons.prems(2,3) by simp_all
  then obtain st4 where "resolve_loop base_address rs st3 = Inr st4"
    using Cons.IH [OF 2] by blast
  then show ?case
    using 3 by (simp add: and_then_def)
qed

lemma resolve_relocations_idempotent:
  assumes "resolve_relocations base_address st = Inr st1"
  shows "\<exists>st2. resolve_relocations base_address st1 = Inr st2
               \<and> machine_code st2 = machine_code st1"
proof -
  let ?rs = "relocations st"
  have run: "resolve_loop base_address ?rs st = Inr st1"
    using assms by (simp add: resolve_relocations_def)
  have f: "labels st1 = labels st" "relocations st1 = ?rs"
    "length (machine_code st1) = length (machine_code st)"
    using resolve_loop_fields [OF run] by simp_all
  obtain st2 where again: "resolve_loop base_address ?rs st1 = Inr st2"
    using resolve_loop_succeeds_alike [OF run f(1) f(3)] by blast
  have len: "length (machine_code st2) = length (machine_code st1)"
    using resolve_loop_fields [OF again] by simp
  have "machine_code st2 ! i = machine_code st1 ! i" if i: "i < length (machine_code st1)" for i
  proof -
    let ?F = "word_after base_address (labels st) (length (machine_code st)) i ?rs"
    have "machine_code st1 ! i = ?F (machine_code st ! i)"
      using resolve_loop_pointwise [OF run] i f(3) by simp
    moreover have "machine_code st2 ! i = ?F (machine_code st1 ! i)"
      using resolve_loop_pointwise [OF again i] f by simp
    ultimately show ?thesis
      using setter_idem [OF setter_word_after] by simp
  qed
  then have "machine_code st2 = machine_code st1"
    using len by (simp add: nth_equalityI)
  then show ?thesis
    using again f(2) by (simp add: resolve_relocations_def)
qed

lemma word_step_miss:
  assumes "base_address \<le> fst r" and "(fst r - base_address) div 4 \<noteq> int i"
  shows "word_step base_address lbls n i r w = w"
proof -
  obtain offset label rel_type where r: "r = (offset, label, rel_type)"
    by (cases r) auto
  have "0 \<le> (offset - base_address) div 4"
    using assms(1) unfolding r by simp
  then show ?thesis
    using assms(2) unfolding r word_step_def Let_def by (auto split: option.splits)
qed

lemma word_after_miss:
  "\<forall>r\<in>set rs. base_address \<le> fst r \<and> (fst r - base_address) div 4 \<noteq> int i \<Longrightarrow>
   word_after base_address lbls n i rs w = w"
proof (induction rs arbitrary: w)
  case Nil
  show ?case by (simp add: word_after_def)
next
  case (Cons r rs)
  have "word_step base_address lbls n i r w = w"
    using Cons.prems by (simp add: word_step_miss)
  moreover have "word_after base_address lbls n i rs w = w"
    using Cons.IH Cons.prems by simp
  ultimately show ?case
    by (simp add: word_after_def)
qed

lemma word_after_single_site:
  "\<forall>r\<in>set rs. base_address \<le> fst r \<Longrightarrow>
   distinct (map (\<lambda>r. (fst r - base_address) div 4) rs) \<Longrightarrow>
   r0 \<in> set rs \<Longrightarrow> (fst r0 - base_address) div 4 = int i \<Longrightarrow>
   word_after base_address lbls n i rs w = word_step base_address lbls n i r0 w"
proof (induction rs arbitrary: w)
  case Nil
  then show ?case by simp
next
  case (Cons r rs)
  have unfold: "word_after base_address lbls n i (r # rs) w
                = word_after base_address lbls n i rs (word_step base_address lbls n i r w)"
    by (simp add: word_after_def)
  show ?case
  proof (cases "r = r0")
    case True
    have notin: "int i \<notin> (\<lambda>r. (fst r - base_address) div 4) ` set rs"
      using Cons.prems(2,4) True by simp
    have "\<forall>q\<in>set rs. (fst q - base_address) div 4 \<noteq> int i"
    proof
      fix q
      assume "q \<in> set rs"
      then have "(fst q - base_address) div 4 \<in> (\<lambda>r. (fst r - base_address) div 4) ` set rs"
        by (rule imageI)
      then show "(fst q - base_address) div 4 \<noteq> int i"
        using notin by metis
    qed
    then have "\<forall>q\<in>set rs. base_address \<le> fst q \<and> (fst q - base_address) div 4 \<noteq> int i"
      using Cons.prems(1) by simp
    then show ?thesis
      unfolding unfold using True by (simp add: word_after_miss)
  next
    case False
    then have in_rest: "r0 \<in> set rs"
      using Cons.prems(3) by simp
    then have "(fst r - base_address) div 4 \<noteq> int i"
      using Cons.prems(2,4) by force
    then have "word_step base_address lbls n i r w = w"
      using Cons.prems(1) by (simp add: word_step_miss)
    then show ?thesis
      unfolding unfold using Cons.IH [OF _ _ in_rest Cons.prems(4)] Cons.prems(1,2) by simp
  qed
qed

lemma resolve_one_succeeds:
  assumes "base_address \<le> offset"
  shows "\<exists>st1. resolve_one base_address st (offset, label, rel_type) = Inr st1"
proof (cases "labels st label")
  case None
  then show ?thesis
    by (simp add: resolve_one_def)
next
  case (Some target)
  have nonneg: "0 \<le> (offset - base_address) div 4"
    using assms by (simp add: pos_imp_zdiv_nonneg_iff)
  show ?thesis
  proof (cases "(offset - base_address) div 4 \<ge> int (length (machine_code st))")
    case True
    then show ?thesis
      using Some by (simp add: resolve_one_def)
  next
    case False
    then show ?thesis
      using Some nonneg
      by (simp add: resolve_one_def getitem_def setitem_def list_index_def and_then_def Let_def)
  qed
qed

lemma resolve_loop_succeeds:
  "\<forall>r\<in>set rs. base_address \<le> fst r \<Longrightarrow> \<exists>st'. resolve_loop base_address rs st = Inr st'"
proof (induction rs arbitrary: st)
  case Nil
  show ?case by simp
next
  case (Cons r rs)
  obtain offset label rel_type where r: "r = (offset, label, rel_type)"
    by (cases r) auto
  have "base_address \<le> offset"
    using Cons.prems unfolding r by simp
  then obtain st1 where 1: "resolve_one base_address st r = Inr st1"
    unfolding r using resolve_one_succeeds by blast
  obtain st' where "resolve_loop base_address rs st1 = Inr st'"
    using Cons.IH Cons.prems by auto
  then show ?case
    using 1 by (simp add: and_then_def)
qed

lemma resolve_loop_order:
  assumes run: "resolve_loop base_address rs st = Inr st1"
    and ge: "\<forall>r\<in>set rs. base_address \<le> fst r"
    and sites: "distinct (map (\<lambda>r. (fst r - base_address) div 4) rs)"
    and perm: "distinct rs'" "set rs' = set rs"
  shows "\<exists>st3. resolve_loop base_address rs' st = Inr st3
               \<and> machine_code st3 = machine_code st1"
proof -
  have ge': "\<forall>r\<in>set rs'. base_address \<le> fst r"
    using ge perm(2) by simp
  have "inj_on (\<lambda>r. (fst r - base_address) div 4) (set rs)"
    using sites by (simp add: distinct_map)
  then have sites': "distinct (map (\<lambda>r. (fst r - base_address) div 4) rs')"
    using perm by (simp add: distinct_map)
  obtain st3 where run': "resolve_loop base_address rs' st = Inr st3"
    using resolve_loop_succeeds [OF ge'] by blast
  have len: "length (machine_code st3) = length (machine_code st1)"
    using resolve_loop_fields [OF run] resolve_loop_fields [OF run'] by simp
  have "machine_code st3 ! i = machine_code st1 ! i" if i: "i < length (machine_code st)" for i
  proof (cases "\<exists>r0\<in>set rs. (fst r0 - base_address) div 4 = int i")
    case True
    then obtain r0 where r0: "r0 \<in> set rs" "(fst r0 - base_address) div 4 = int i"
      by blast
    have r0': "r0 \<in> set rs'"
      using r0(1) perm(2) by simp
    show ?thesis
      using resolve_loop_pointwise [OF run i] resolve_loop_pointwise [OF run' i]
        word_after_single_site [OF ge sites r0] word_after_single_site [OF ge' sites' r0' r0(2)]
      by simp
  next
    case False
    then have m: "\<forall>r\<in>set rs. base_address \<le> fst r \<and> (fst r - base_address) div 4 \<noteq> int i"
      using ge by blast
    then have m': "\<forall>r\<in>set rs'. base_address \<le> fst r \<and> (fst r - base_address) div 4 \<noteq> int i"
      using perm(2) by simp
    show ?thesis
      using resolve_loop_pointwise [OF run i] resolve_loop_pointwise [OF run' i]
        word_after_miss [OF m] word_after_miss [OF m']
      by simp
  qed
  then have "machine_code st3 = machine_code st1"
    using len resolve_loop_fields [OF run] by (simp add: nth_equalityI)
  then show ?thesis
    using run' by blast
qed

text \<open>
  C9. Running the resolver a second time, with the same base address and relocation list,
  returns the machine code of the first run. And for a relocation list as pass 2 builds it,
  every offset at or above the base and no two entries on the same word, processing the
  entries in any order gives the same machine code.
\<close>

theorem resolution_idempotent_and_order_independent:
  assumes "resolve_relocations base_address st = Inr st1"
    and "\<forall>r\<in>set (relocations st). base_address \<le> fst r"
    and "distinct (map (\<lambda>r. (fst r - base_address) div 4) (relocations st))"
  shows "(\<exists>st2. resolve_relocations base_address st1 = Inr st2
               \<and> machine_code st2 = machine_code st1)
         \<and> (\<forall>rs'. distinct rs' \<and> set rs' = set (relocations st) \<longrightarrow>
                (\<exists>st3. resolve_loop base_address rs' st = Inr st3
                       \<and> machine_code st3 = machine_code st1))"
proof
  show "\<exists>st2. resolve_relocations base_address st1 = Inr st2
              \<and> machine_code st2 = machine_code st1"
    using assms(1) by (rule resolve_relocations_idempotent)
  have run: "resolve_loop base_address (relocations st) st = Inr st1"
    using assms(1) by (simp add: resolve_relocations_def)
  show "\<forall>rs'. distinct rs' \<and> set rs' = set (relocations st) \<longrightarrow>
          (\<exists>st3. resolve_loop base_address rs' st = Inr st3
                 \<and> machine_code st3 = machine_code st1)"
    using resolve_loop_order [OF run assms(2,3)] by blast
qed

theorem resolution_idempotent_and_order_independent_witness:
  "(let S = new_assembler\<lparr>labels := [''x'' \<mapsto> 0x100000008],
                             relocations := [(0x100000000, ''x'', ''b''),
                                             (0x100000004, ''x'', ''bcond'')],
                             machine_code := [0x14000000, 0x54000001, 0xD503201F]\<rparr>;
        S1 = S\<lparr>machine_code := [0x14000002, 0x54000021, 0xD503201F]\<rparr>
    in resolve_relocations 0x100000000 S = Inr S1
       \<and> (\<forall>r\<in>set (relocations S). 0x100000000 \<le> fst r)
       \<and> distinct (map (\<lambda>r. (fst r - 0x100000000) div 4) (relocations S))
       \<and> (\<exists>st2. resolve_relocations 0x100000000 S1 = Inr st2
                 \<and> machine_code st2 = machine_code S1)
       \<and> (\<forall>rs'. distinct rs' \<and> set rs' = set (relocations S) \<longrightarrow>
              (\<exists>st3. resolve_loop 0x100000000 rs' S = Inr st3
                     \<and> machine_code st3 = machine_code S1)))"
proof -
  define S where "S = new_assembler\<lparr>labels := [''x'' \<mapsto> 0x100000008],
                             relocations := [(0x100000000, ''x'', ''b''),
                                             (0x100000004, ''x'', ''bcond'')],
                             machine_code := [0x14000000, 0x54000001, 0xD503201F]\<rparr>"
  define S1 where "S1 = S\<lparr>machine_code := [0x14000002, 0x54000021, 0xD503201F]\<rparr>"
  have h1: "resolve_relocations 0x100000000 S = Inr S1"
    by (simp add: S_def S1_def resolve_relocations_def resolve_one_def patch_word_def
        getitem_def setitem_def list_index_def and_then_def)
  have h2: "\<forall>r\<in>set (relocations S). 0x100000000 \<le> fst r"
    by (simp add: S_def)
  have h3: "distinct (map (\<lambda>r. (fst r - 0x100000000) div 4) (relocations S))"
    by (simp add: S_def)
  note r = resolution_idempotent_and_order_independent [OF h1 h2 h3]
  have "resolve_relocations 0x100000000 S = Inr S1
       \<and> (\<forall>r\<in>set (relocations S). 0x100000000 \<le> fst r)
       \<and> distinct (map (\<lambda>r. (fst r - 0x100000000) div 4) (relocations S))
       \<and> (\<exists>st2. resolve_relocations 0x100000000 S1 = Inr st2
                 \<and> machine_code st2 = machine_code S1)
       \<and> (\<forall>rs'. distinct rs' \<and> set rs' = set (relocations S) \<longrightarrow>
              (\<exists>st3. resolve_loop 0x100000000 rs' S = Inr st3
                     \<and> machine_code st3 = machine_code S1))"
    using h1 h2 h3 r by blast
  then show ?thesis
    unfolding Let_def S1_def S_def .
qed

section \<open>Which instructions record a relocation\<close>

lemma records_stateless: "records_unknown_only (\<lambda>ops. stateless (f ops))"
  unfolding records_unknown_only_def stateless_def and_then_def
  by (auto split: sum.splits)

lemma records_b_bl: "records_unknown_only (encode_b_bl mnem)"
  unfolding records_unknown_only_def encode_b_bl_def and_then_def Let_def
  by (auto split: sum.splits option.splits)

lemma records_b_cond: "records_unknown_only (encode_b_cond mnem)"
  unfolding records_unknown_only_def encode_b_cond_def and_then_def Let_def
  by (auto split: sum.splits option.splits)

lemma records_cbz_cbnz: "records_unknown_only (encode_cbz_cbnz mnem)"
  unfolding records_unknown_only_def encode_cbz_cbnz_def and_then_def Let_def
  by (auto split: sum.splits option.splits prod.splits)

lemma records_tbz_tbnz: "records_unknown_only (encode_tbz_tbnz mnem)"
  unfolding records_unknown_only_def encode_tbz_tbnz_def and_then_def Let_def
  by (auto split: sum.splits option.splits prod.splits)

lemma records_adr_adrp: "records_unknown_only (encode_adr_adrp mnem)"
  unfolding records_unknown_only_def encode_adr_adrp_def and_then_def Let_def
  by (auto split: sum.splits option.splits prod.splits)

lemma records_encoders: "\<forall>(k, enc)\<in>set encoders. records_unknown_only enc"
  unfolding encoders_def
  by (simp add: records_stateless records_b_bl records_cbz_cbnz records_tbz_tbnz
      records_adr_adrp)

lemma dispatch_records:
  assumes "dispatch mnem ops st = Inr (w, st')"
  shows "st' = st \<or> (\<exists>label kind. labels st label = None \<and> st' = add_relocation label kind st)"
proof (cases "startswith mnem ''b.''")
  case True
  then have "encode_b_cond mnem ops st = Inr (w, st')"
    using assms by (simp add: dispatch_def)
  then show ?thesis
    using records_b_cond unfolding records_unknown_only_def by blast
next
  case False
  then obtain enc where enc: "map_of encoders mnem = Some enc" "enc ops st = Inr (w, st')"
    using assms by (auto simp add: dispatch_def split: option.splits)
  then have "(mnem, enc) \<in> set encoders"
    by (simp add: map_of_SomeD)
  then have "records_unknown_only enc"
    using records_encoders by blast
  then show ?thesis
    using enc(2) unfolding records_unknown_only_def by blast
qed

lemma registers_range:
  assumes "registers r = Some n"
  shows "0 \<le> n \<and> n < 32"
proof -
  have "(r, n) \<in> set init_registers"
    using assms unfolding registers_def by (auto dest: map_of_SomeD)
  moreover have "\<forall>(k, v)\<in>set init_registers. 0 \<le> v \<and> v < 32"
    by (simp add: init_registers_table)
  ultimately show ?thesis by blast
qed

lemma parse_register_range:
  assumes "parse_register r = Inr (n, sf)"
  shows "0 \<le> n \<and> n < 32"
  using assms registers_range unfolding parse_register_def Let_def
  by (auto split: option.splits)

lemma small_has_no_high_bit:
  assumes "0 \<le> (k::int)" and "k < 32" and "5 \<le> n"
  shows "\<not> bit k n"
proof
  assume b: "bit k n"
  have "take_bit 5 k = k"
    using assms(1,2) by (simp add: take_bit_int_eq_self)
  then have "bit (take_bit 5 k) n"
    using b by simp
  then show False
    using assms(3) by (simp add: bit_take_bit_iff)
qed

lemma branch_field:
  "(shl (bit_of l) 31 OR shl 5 26 OR (x AND 0x3FFFFFF)) AND 0x3FFFFFF = x AND 0x3FFFFFF"
proof (rule bit_eqI)
  fix n
  show "bit ((shl (bit_of l) 31 OR shl 5 26 OR (x AND 0x3FFFFFF)) AND 0x3FFFFFF) n
        = bit (x AND 0x3FFFFFF) n"
    unfolding and_mask_26 bit_take_bit_iff bit_or_iff bit_push_bit_iff by auto
qed

lemma compare_branch_field:
  assumes "0 \<le> rt" and "rt < 32"
  shows "shr (shl (bit_of sf) 31 OR shl 0x1A 25 OR shl (bit_of nz) 24
              OR shl (x AND 0x7FFFF) 5 OR rt) 5 AND 0x7FFFF
         = x AND 0x7FFFF"
proof (rule bit_eqI)
  fix n
  have rt: "\<not> bit rt (n + 5)"
    using assms by (simp add: small_has_no_high_bit)
  show "bit (shr (shl (bit_of sf) 31 OR shl 0x1A 25 OR shl (bit_of nz) 24
                  OR shl (x AND 0x7FFFF) 5 OR rt) 5 AND 0x7FFFF) n
        = bit (x AND 0x7FFFF) n"
    unfolding and_mask_19 bit_take_bit_iff bit_drop_bit_eq bit_or_iff bit_push_bit_iff o_def
    using rt by (auto simp add: add.commute)
qed
text \<open>
  C2, as the code has it. The claim says that every label-referencing instruction appends a
  relocation and stores a zero offset even when the label is already in the table. The
  encoders test \<open>label in self.labels\<close> first: \<open>loop: / nop / b loop\<close> assembles with an
  empty relocation list and the branch word already holds offset -1.
\<close>

theorem known_label_makes_no_relocation:
  "run_result (assemble (''loop:'' @ [CHR 0x0A] @ ''nop'' @ [CHR 0x0A] @ ''b loop'')
                 0x100000000 new_assembler)
   = Inr ([0xD503201F, 0x17FFFFFF], [], [])"
  by code_simp

text \<open>
  C2, amended. An instruction of pass 2 either leaves the assembler's fields as they were
  or appends one relocation, and then for a label that is absent from the label table. For
  \<open>b\<close>/\<open>bl\<close> and \<open>cbz\<close>/\<open>cbnz\<close>: when the label is in the table, no relocation is
  appended and the offset field holds the word distance to the label, masked to the field;
  when it is absent (\<open>b\<close>/\<open>bl\<close>), the relocation is appended and the field is zero.
\<close>

theorem relocation_only_for_unknown_label:
  "(dispatch mnem ops st = Inr (w, st') \<longrightarrow>
      st' = st \<or> (\<exists>label kind. labels st label = None \<and> st' = add_relocation label kind st))
   \<and> (labels st (strip op) = Some target \<longrightarrow>
        (\<exists>v. encode_b_bl mnem [op] st = Inr (v, st)
              \<and> v AND 0x3FFFFFF = shr (target - address st) 2 AND 0x3FFFFFF))
   \<and> (parse_register r = Inr (rt, sf) \<and> labels st (strip op) = Some target \<longrightarrow>
        (\<exists>v. encode_cbz_cbnz mnem [r, op] st = Inr (v, st)
              \<and> shr v 5 AND 0x7FFFF = shr (target - address st) 2 AND 0x7FFFF))
   \<and> (labels st (strip op) = None \<longrightarrow>
        (\<exists>v. encode_b_bl mnem [op] st = Inr (v, add_relocation (strip op) ''b'' st)
              \<and> v AND 0x3FFFFFF = 0))"
proof (intro conjI impI)
  assume "dispatch mnem ops st = Inr (w, st')"
  then show "st' = st
             \<or> (\<exists>label kind. labels st label = None \<and> st' = add_relocation label kind st)"
    by (rule dispatch_records)
next
  assume known: "labels st (strip op) = Some target"
  have "encode_b_bl mnem [op] st
        = Inr (shl (bit_of (mnem = ''bl'')) 31 OR shl 5 26
               OR (shr (target - address st) 2 AND 0x3FFFFFF), st)"
    using known
    by (simp add: encode_b_bl_def getitem_def list_index_def and_then_def)
  then show "\<exists>v. encode_b_bl mnem [op] st = Inr (v, st)
                 \<and> v AND 0x3FFFFFF = shr (target - address st) 2 AND 0x3FFFFFF"
    using branch_field by blast
next
  assume "parse_register r = Inr (rt, sf) \<and> labels st (strip op) = Some target"
  then have reg: "parse_register r = Inr (rt, sf)"
    and known: "labels st (strip op) = Some target"
    by simp_all
  have "encode_cbz_cbnz mnem [r, op] st
        = Inr (shl (bit_of sf) 31 OR shl 0x1A 25 OR shl (bit_of (mnem = ''cbnz'')) 24
               OR shl (shr (target - address st) 2 AND 0x7FFFF) 5 OR rt, st)"
    using reg known
    by (simp add: encode_cbz_cbnz_def reg_at_def getitem_def list_index_def and_then_def)
  then show "\<exists>v. encode_cbz_cbnz mnem [r, op] st = Inr (v, st)
                 \<and> shr v 5 AND 0x7FFFF = shr (target - address st) 2 AND 0x7FFFF"
    using compare_branch_field parse_register_range [OF reg] by blast
next
  assume unknown: "labels st (strip op) = None"
  have "encode_b_bl mnem [op] st
        = Inr (shl (bit_of (mnem = ''bl'')) 31 OR shl 5 26 OR (0 AND 0x3FFFFFF),
               add_relocation (strip op) ''b'' st)"
    using unknown
    by (simp add: encode_b_bl_def getitem_def list_index_def and_then_def)
  then show "\<exists>v. encode_b_bl mnem [op] st = Inr (v, add_relocation (strip op) ''b'' st)
                 \<and> v AND 0x3FFFFFF = 0"
    using branch_field [of "mnem = ''bl''" 0] by auto
qed
theorem relocation_only_for_unknown_label_witness:
  "(let S = new_assembler\<lparr>labels := (labels new_assembler)(''loop'' \<mapsto> 0x100000000),
                             address := 0x100000004\<rparr>
    in dispatch ''b'' [''loop''] S = Inr (0x17FFFFFF, S)
       \<and> labels S (strip ''loop'') = Some 0x100000000
       \<and> (\<exists>v. encode_b_bl ''b'' [''loop''] S = Inr (v, S)
               \<and> v AND 0x3FFFFFF = shr (0x100000000 - address S) 2 AND 0x3FFFFFF)
       \<and> parse_register ''x1'' = Inr (1, True)
       \<and> (\<exists>v. encode_cbz_cbnz ''cbz'' [''x1'', ''loop''] S = Inr (v, S)
               \<and> shr v 5 AND 0x7FFFF = shr (0x100000000 - address S) 2 AND 0x7FFFF)
       \<and> labels new_assembler (strip ''loop'') = None
       \<and> (\<exists>v. encode_b_bl ''b'' [''loop''] new_assembler
                 = Inr (v, add_relocation (strip ''loop'') ''b'' new_assembler)
               \<and> v AND 0x3FFFFFF = 0))"
proof -
  define S where "S = new_assembler\<lparr>labels := (labels new_assembler)(''loop'' \<mapsto> 0x100000000),
                                      address := 0x100000004\<rparr>"
  have s: "strip ''loop'' = ''loop''"
    by code_simp
  have hB: "labels S (strip ''loop'') = Some 0x100000000"
    by (simp add: S_def s)
  have hA: "dispatch ''b'' [''loop''] S = Inr (0x17FFFFFF, S)"
    by (simp add: dispatch_def startswith_def encoders_def encode_b_bl_def getitem_def
        list_index_def and_then_def s S_def)
  have hC: "parse_register ''x1'' = Inr (1, True)"
    by code_simp
  have hD: "labels new_assembler (strip ''loop'') = None"
    by (simp add: new_assembler_def)
  note t1 = relocation_only_for_unknown_label
    [of "''b''" "[''loop'']" S "0x17FFFFFF" S "''loop''" "0x100000000" "''x1''" 1 True]
  note t2 = relocation_only_for_unknown_label
    [of "''b''" "[''loop'']" new_assembler 0 new_assembler "''loop''"]
  note t3 = relocation_only_for_unknown_label
    [of "''cbz''" "[''loop'']" S 0 S "''loop''" "0x100000000" "''x1''" 1 True]
  have "dispatch ''b'' [''loop''] S = Inr (0x17FFFFFF, S)
       \<and> labels S (strip ''loop'') = Some 0x100000000
       \<and> (\<exists>v. encode_b_bl ''b'' [''loop''] S = Inr (v, S)
               \<and> v AND 0x3FFFFFF = shr (0x100000000 - address S) 2 AND 0x3FFFFFF)
       \<and> parse_register ''x1'' = Inr (1, True)
       \<and> (\<exists>v. encode_cbz_cbnz ''cbz'' [''x1'', ''loop''] S = Inr (v, S)
               \<and> shr v 5 AND 0x7FFFF = shr (0x100000000 - address S) 2 AND 0x7FFFF)
       \<and> labels new_assembler (strip ''loop'') = None
       \<and> (\<exists>v. encode_b_bl ''b'' [''loop''] new_assembler
                 = Inr (v, add_relocation (strip ''loop'') ''b'' new_assembler)
               \<and> v AND 0x3FFFFFF = 0)"
    using hA hB hC hD t1 t2 t3 by blast
  then show ?thesis
    unfolding Let_def S_def .
qed

section \<open>Immediates outside their field\<close>

text \<open>
  C4, as the code has it. The claim says that every encoder raises for an immediate outside
  its field and none truncates. The logical-immediate encoder masks: \<open>and x0, x1, #64\<close>
  encodes like \<open>and x0, x1, #0\<close>. And \<open>svc 0x10000\<close>, whose immediate does not fit 16
  bits, assembles: the immediate's bit 16 lands on bit 21 of the word.
\<close>

theorem logical_immediate_is_masked:
  "encode_logical_imm ''and'' [''x0'', ''x1'', ''#64''] = Inr 0x92400020
   \<and> encode_logical_imm ''and'' [''x0'', ''x1'', ''#0''] = Inr 0x92400020
   \<and> run_result (assemble ''svc 0x10000'' 0x100000000 new_assembler)
       = Inr ([0xD4200001], [], [])"
  by code_simp

text \<open>
  C4, amended. The ADD/SUB/ADDS/SUBS immediate encoder raises for an immediate outside
  0..4095 and the MOVZ/MOVN/MOVK encoder for one outside 0..65535. The logical-immediate
  encoder does not raise on account of its immediate: with both registers valid it returns
  a word whose \<open>imms\<close> field is the immediate's low six bits.
\<close>

theorem immediate_range_checks:
  "(imm_at ops 2 = Inr imm \<and> (imm < 0 \<or> 4096 \<le> imm) \<longrightarrow>
      (\<exists>e. encode_add_sub_imm mnem ops = Inl e))
   \<and> (imm_at ops 1 = Inr imm \<and> (imm < 0 \<or> 65536 \<le> imm) \<longrightarrow>
        (\<exists>e. encode_movz_movn_movk mnem ops = Inl e))
   \<and> (reg_at ops 0 = Inr (rd, sf) \<and> reg_at ops 1 = Inr (rn, sf') \<and> imm_at ops 2 = Inr imm \<longrightarrow>
        encode_logical_imm mnem ops
          = Inr (shl (bit_of sf) 31
                 OR shl (dict_get [(''and'', 0), (''orr'', 1), (''eor'', 2), (''ands'', 3)] mnem 1) 29
                 OR shl 0x24 23 OR shl (bit_of sf) 22 OR shl 0 16
                 OR shl (imm AND 0x3F) 10 OR shl rn 5 OR rd))"
proof (intro conjI impI)
  assume "imm_at ops 2 = Inr imm \<and> (imm < 0 \<or> 4096 \<le> imm)"
  then show "\<exists>e. encode_add_sub_imm mnem ops = Inl e"
    unfolding encode_add_sub_imm_def and_then_def Let_def
    by (auto split: sum.splits prod.splits)
next
  assume "imm_at ops 1 = Inr imm \<and> (imm < 0 \<or> 65536 \<le> imm)"
  then show "\<exists>e. encode_movz_movn_movk mnem ops = Inl e"
    unfolding encode_movz_movn_movk_def and_then_def Let_def
    by (auto split: sum.splits prod.splits)
next
  assume "reg_at ops 0 = Inr (rd, sf) \<and> reg_at ops 1 = Inr (rn, sf') \<and> imm_at ops 2 = Inr imm"
  then show "encode_logical_imm mnem ops
          = Inr (shl (bit_of sf) 31
                 OR shl (dict_get [(''and'', 0), (''orr'', 1), (''eor'', 2), (''ands'', 3)] mnem 1) 29
                 OR shl 0x24 23 OR shl (bit_of sf) 22 OR shl 0 16
                 OR shl (imm AND 0x3F) 10 OR shl rn 5 OR rd)"
    unfolding encode_logical_imm_def and_then_def Let_def
    by simp
qed

theorem immediate_range_checks_witness:
  "imm_at [''x0'', ''x1'', ''#4096''] 2 = Inr 4096 \<and> ((4096::int) < 0 \<or> (4096::int) \<le> 4096)
   \<and> (\<exists>e. encode_add_sub_imm ''add'' [''x0'', ''x1'', ''#4096''] = Inl e)
   \<and> imm_at [''x0'', ''#65536''] 1 = Inr 65536 \<and> ((65536::int) < 0 \<or> (65536::int) \<le> 65536)
   \<and> (\<exists>e. encode_movz_movn_movk ''movz'' [''x0'', ''#65536''] = Inl e)
   \<and> reg_at [''x0'', ''x1'', ''#64''] 0 = Inr (0, True)
   \<and> reg_at [''x0'', ''x1'', ''#64''] 1 = Inr (1, True)
   \<and> imm_at [''x0'', ''x1'', ''#64''] 2 = Inr 64
   \<and> encode_logical_imm ''and'' [''x0'', ''x1'', ''#64'']
       = Inr (shl (bit_of True) 31
              OR shl (dict_get [(''and'', 0), (''orr'', 1), (''eor'', 2), (''ands'', 3)] ''and'' 1) 29
              OR shl 0x24 23 OR shl (bit_of True) 22 OR shl 0 16
              OR shl (64 AND 0x3F) 10 OR shl 1 5 OR 0)"
proof -
  have a: "imm_at [''x0'', ''x1'', ''#4096''] 2 = Inr 4096"
    by code_simp
  have b: "imm_at [''x0'', ''#65536''] 1 = Inr 65536"
    by code_simp
  have c: "reg_at [''x0'', ''x1'', ''#64''] 0 = Inr (0, True)"
    "reg_at [''x0'', ''x1'', ''#64''] 1 = Inr (1, True)"
    "imm_at [''x0'', ''x1'', ''#64''] 2 = Inr 64"
    by code_simp+
  have r: "(4096::int) < 0 \<or> (4096::int) \<le> 4096" "(65536::int) < 0 \<or> (65536::int) \<le> 65536"
    by simp_all
  note t1 = immediate_range_checks [of "[''x0'', ''x1'', ''#4096'']" 4096 "''add''"]
  note t2 = immediate_range_checks [of "[''x0'', ''#65536'']" 65536 "''movz''"]
  note t3 = immediate_range_checks [of "[''x0'', ''x1'', ''#64'']" 64 "''and''" 0 True 1 True]
  show ?thesis
    using a b c r t1 t2 t3 by blast
qed

section \<open>Duplicate labels\<close>

lemma pass1_line_labels:
  "labels (pass1_line st l)
     = (case pass1_label l of None \<Rightarrow> labels st | Some n \<Rightarrow> (labels st)(n \<mapsto> address st))"
  unfolding pass1_line_def pass1_label_def Let_def by auto

lemma pass1_line_stderr: "stderr (pass1_line st l) = stderr st"
  unfolding pass1_line_def Let_def by simp

lemma pass1_append: "pass1 (xs @ ys) st = pass1 ys (pass1 xs st)"
  unfolding pass1_def by simp

lemma pass1_Cons: "pass1 (l # ys) st = pass1 ys (pass1_line st l)"
  unfolding pass1_def by simp

lemma pass1_stderr: "stderr (pass1 ys st) = stderr st"
  by (induction ys arbitrary: st) (simp_all add: pass1_Cons pass1_line_stderr pass1_def)

lemma pass1_keeps_label:
  "\<forall>y\<in>set ys. pass1_label y \<noteq> Some n \<Longrightarrow> labels (pass1 ys st) n = labels st n"
proof (induction ys arbitrary: st)
  case Nil
  show ?case by (simp add: pass1_def)
next
  case (Cons y ys)
  have "labels (pass1_line st y) n = labels st n"
    using Cons.prems by (auto simp add: pass1_line_labels split: option.splits)
  then show ?case
    using Cons.IH Cons.prems by (simp add: pass1_Cons)
qed

lemma pass1_last_definition:
  assumes "pass1_label l = Some n" and "\<forall>y\<in>set ys. pass1_label y \<noteq> Some n"
  shows "labels (pass1 (xs @ l # ys) st) n = Some (address (pass1 xs st))"
proof -
  have "labels (pass1 (xs @ l # ys) st) n = labels (pass1_line (pass1 xs st) l) n"
    using assms(2) by (simp add: pass1_append pass1_Cons pass1_keeps_label)
  then show ?thesis
    using assms(1) by (simp add: pass1_line_labels)
qed

lemma dispatch_fields:
  assumes "dispatch mnem ops st = Inr (w, st')"
  shows "labels st' = labels st \<and> address st' = address st \<and> stderr st' = stderr st"
  using dispatch_records [OF assms] by (auto simp add: add_relocation_def)

lemma assemble_instruction_fields:
  assumes "assemble_instruction l st = Inr (encoded, st')"
  shows "labels st'
           = (case pass2_label l of None \<Rightarrow> labels st | Some n \<Rightarrow> (labels st)(n \<mapsto> address st))
         \<and> address st' = address st \<and> stderr st' = stderr st"
  using assms unfolding assemble_instruction_def pass2_label_def Let_def and_then_def
  by (auto split: if_splits sum.splits prod.splits dest!: dispatch_fields)

lemma pass2_append: "pass2 (xs @ ys) st = and_then (pass2 xs st) (pass2 ys)"
proof (induction xs arbitrary: st)
  case Nil
  show ?case by (simp add: and_then_def)
next
  case (Cons x xs)
  show ?case
    by (simp add: and_then_def Cons.IH split: sum.splits prod.splits option.splits)
qed

lemma pass2_Cons:
  assumes "pass2 (l # ys) st = Inr st'"
  shows "\<exists>encoded st1 st2. assemble_instruction l st = Inr (encoded, st1)
           \<and> labels st2 = labels st1 \<and> stderr st2 = stderr st1
           \<and> pass2 ys st2 = Inr st'"
proof -
  obtain encoded st1 where 1: "assemble_instruction l st = Inr (encoded, st1)"
    using assms by (auto simp add: and_then_def split: sum.splits)
  show ?thesis
  proof (cases encoded)
    case None
    then have "pass2 ys st1 = Inr st'"
      using assms 1 by (simp add: and_then_def)
    then show ?thesis
      using 1 by blast
  next
    case (Some w)
    let ?st2 = "st1\<lparr>machine_code := machine_code st1 @ [w], address := address st1 + 4\<rparr>"
    have "pass2 ys ?st2 = Inr st'"
      using assms 1 Some by (simp add: and_then_def)
    moreover have "labels ?st2 = labels st1" "stderr ?st2 = stderr st1"
      by simp_all
    ultimately show ?thesis
      using 1 by blast
  qed
qed

lemma pass2_keeps_label:
  "pass2 ys st = Inr st' \<Longrightarrow> \<forall>y\<in>set ys. pass2_label y \<noteq> Some n \<Longrightarrow>
   labels st' n = labels st n"
proof (induction ys arbitrary: st)
  case Nil
  then show ?case by simp
next
  case (Cons y ys)
  obtain encoded st1 st2 where 1: "assemble_instruction y st = Inr (encoded, st1)"
    and 2: "labels st2 = labels st1" and 3: "pass2 ys st2 = Inr st'"
    using pass2_Cons [OF Cons.prems(1)] by blast
  have "labels st1 n = labels st n"
    using assemble_instruction_fields [OF 1] Cons.prems(2) by (auto split: option.splits)
  moreover have "labels st' n = labels st2 n"
    using Cons.IH [OF 3] Cons.prems(2) by simp
  ultimately show ?case
    using 2 by simp
qed

lemma pass2_stderr: "pass2 ys st = Inr st' \<Longrightarrow> stderr st' = stderr st"
proof (induction ys arbitrary: st)
  case Nil
  then show ?case by simp
next
  case (Cons y ys)
  obtain encoded st1 st2 where 1: "assemble_instruction y st = Inr (encoded, st1)"
    and 2: "stderr st2 = stderr st1" and 3: "pass2 ys st2 = Inr st'"
    using pass2_Cons [OF Cons.prems(1)] by blast
  show ?case
    using assemble_instruction_fields [OF 1] Cons.IH [OF 3] 2 by simp
qed

lemma pass2_last_definition:
  assumes "pass2 (xs @ l # ys) st = Inr st'"
    and "pass2_label l = Some n" and "\<forall>y\<in>set ys. pass2_label y \<noteq> Some n"
  shows "\<exists>st0. pass2 xs st = Inr st0 \<and> labels st' n = Some (address st0)"
proof -
  obtain st0 where 0: "pass2 xs st = Inr st0" and rest: "pass2 (l # ys) st0 = Inr st'"
    using assms(1) by (auto simp add: pass2_append and_then_def split: sum.splits)
  obtain encoded st1 st2 where 1: "assemble_instruction l st0 = Inr (encoded, st1)"
    and 2: "labels st2 = labels st1" and 3: "pass2 ys st2 = Inr st'"
    using pass2_Cons [OF rest] by blast
  have "labels st1 n = Some (address st0)"
    using assemble_instruction_fields [OF 1] assms(2) by simp
  moreover have "labels st' n = labels st2 n"
    using pass2_keeps_label [OF 3 assms(3)] .
  ultimately show ?thesis
    using 0 2 by simp
qed

text \<open>
  C10. A label defined on several lines raises nothing and prints nothing: each definition
  overwrites the table entry. After pass 1 the label has the address that pass 1 had
  reached at its last defining line, whatever lines came before; and a pass 2 that
  returns leaves the label at the address pass 2 had reached at its last defining line.
  The resolver and the executable emitter read this table.
\<close>

theorem duplicate_label_last_definition_wins:
  "(pass1_label l = Some n \<and> (\<forall>y\<in>set ys. pass1_label y \<noteq> Some n) \<longrightarrow>
      labels (pass1 (xs @ l # ys) st) n = Some (address (pass1 xs st))
      \<and> stderr (pass1 (xs @ l # ys) st) = stderr st)
   \<and> (pass2_label l = Some n \<and> (\<forall>y\<in>set ys. pass2_label y \<noteq> Some n)
       \<and> pass2 (xs @ l # ys) st = Inr st' \<longrightarrow>
        (\<exists>st0. pass2 xs st = Inr st0 \<and> labels st' n = Some (address st0))
        \<and> stderr st' = stderr st)"
  using pass1_last_definition pass1_stderr pass2_last_definition pass2_stderr
  by blast

theorem duplicate_label_last_definition_wins_witness:
  "labels (pass1 ([''x:'', ''nop''] @ ''x:'' # [''ret'']) new_assembler) ''x''
     = Some (address (pass1 [''x:'', ''nop''] new_assembler))
   \<and> address (pass1 [''x:'', ''nop''] new_assembler) = 4
   \<and> stderr (pass1 ([''x:'', ''nop''] @ ''x:'' # [''ret'']) new_assembler) = stderr new_assembler
   \<and> (\<exists>st'. pass2 ([''x:'', ''nop''] @ ''x:'' # [''ret'']) new_assembler = Inr st'
            \<and> (\<exists>st0. pass2 [''x:'', ''nop''] new_assembler = Inr st0
                      \<and> labels st' ''x'' = Some (address st0))
            \<and> stderr st' = stderr new_assembler)"
proof -
  have l1: "pass1_label ''x:'' = Some ''x''"
    by code_simp
  have l2: "pass2_label ''x:'' = Some ''x''"
    by code_simp
  have n1: "\<forall>y\<in>set [''ret'']. pass1_label y \<noteq> Some ''x''"
    by code_simp
  have n2: "\<forall>y\<in>set [''ret'']. pass2_label y \<noteq> Some ''x''"
    by code_simp
  have a: "address (pass1 [''x:'', ''nop''] new_assembler) = 4"
    by code_simp
  have "run_result (pass2 ([''x:'', ''nop''] @ ''x:'' # [''ret'']) new_assembler)
        = Inr ([0xD503201F, 0xD65F03C0], [], [])"
    by code_simp
  then obtain st' where
    run: "pass2 ([''x:'', ''nop''] @ ''x:'' # [''ret'']) new_assembler = Inr st'"
    unfolding run_result_def by (auto split: sum.splits)
  note t = duplicate_label_last_definition_wins
    [of "''x:''" "''x''" "[''ret'']" "[''x:'', ''nop'']" new_assembler st']
  show ?thesis
    using l1 l2 n1 n2 a run t by blast
qed

section \<open>The bytes of the executable\<close>

lemma length_le_bytes: "length (le_bytes n v) = n"
  by (simp add: le_bytes_def)

lemma pack_I_ok: "0 \<le> v \<Longrightarrow> v < 2 ^ 32 \<Longrightarrow> pack_I v = Inr (le_bytes 4 v)"
  by (simp add: pack_I_def pack_le_def)

lemma pack_Q_ok: "0 \<le> v \<Longrightarrow> v < 2 ^ 64 \<Longrightarrow> pack_Q v = Inr (le_bytes 8 v)"
  by (simp add: pack_Q_def pack_le_def)

lemma pack_I_fails: "v < 0 \<or> 2 ^ 32 \<le> v \<Longrightarrow> pack_I v = Inl StructError"
  by (auto simp add: pack_I_def pack_le_def)

lemma pack_Q_fails: "v < 0 \<or> 2 ^ 64 \<le> v \<Longrightarrow> pack_Q v = Inl StructError"
  by (auto simp add: pack_Q_def pack_le_def)

lemma le_bytes_magic: "le_bytes 4 0xFEEDFACF = [0xCF, 0xFA, 0xED, 0xFE]"
  by (simp add: le_bytes_def upt_rec drop_bit_eq_div)

lemma write_all_appends:
  "pos f = length (data f) \<Longrightarrow>
   write_all (map Inr bss) f
     = Inr \<lparr>data = data f @ concat bss, pos = length (data f) + length (concat bss)\<rparr>"
proof (induction bss arbitrary: f)
  case Nil
  then show ?case by simp
next
  case (Cons bs bss)
  have "f_write bs f = \<lparr>data = data f @ bs, pos = length (data f) + length bs\<rparr>"
    using Cons.prems by (simp add: f_write_def)
  then show ?case
    using Cons.IH [of "f_write bs f"] by simp
qed

lemma pack_I_code:
  "\<forall>w\<in>set code. 0 \<le> w \<and> w < 2 ^ 32 \<Longrightarrow> map pack_I code = map Inr (map (le_bytes 4) code)"
  by (induction code) (simp_all add: pack_I_ok)

lemma write_code:
  assumes "\<forall>w\<in>set code. 0 \<le> w \<and> w < 2 ^ 32" and "length d \<le> p"
  shows "write_all (map pack_I code) \<lparr>data = d, pos = p\<rparr>
         = Inr \<lparr>data = (if code = [] then d
                         else d @ replicate (p - length d) 0 @ concat (map (le_bytes 4) code)),
                 pos = p + 4 * length code\<rparr>"
proof (cases code)
  case Nil
  then show ?thesis by simp
next
  case (Cons w ws)
  have ws: "\<forall>w\<in>set ws. 0 \<le> w \<and> w < 2 ^ 32" and w: "0 \<le> w" "w < 2 ^ 32"
    using assms(1) Cons by simp_all
  let ?f = "\<lparr>data = d @ replicate (p - length d) 0 @ le_bytes 4 w, pos = p + 4\<rparr>"
  have first: "f_write (le_bytes 4 w) \<lparr>data = d, pos = p\<rparr> = ?f"
    using assms(2) by (simp add: f_write_def length_le_bytes)
  have app: "pos ?f = length (data ?f)"
    using assms(2) by (simp add: length_le_bytes)
  have "write_all (map pack_I code) \<lparr>data = d, pos = p\<rparr>
        = write_all (map Inr (map (le_bytes 4) ws)) ?f"
    unfolding Cons using first w by (simp add: pack_I_ok pack_I_code [OF ws])
  also have "\<dots> = Inr \<lparr>data = data ?f @ concat (map (le_bytes 4) ws),
                         pos = length (data ?f) + length (concat (map (le_bytes 4) ws))\<rparr>"
    using write_all_appends [OF app] .
  finally show ?thesis
    using assms(2) Cons
    by (simp add: length_le_bytes length_concat comp_def sum_list_triv)
qed

lemma name16_ok: "length s \<le> 16 \<Longrightarrow> name16 s = Inr (map of_char s @ replicate (16 - length s) 0)"
  by (simp add: name16_def)

lemma write_macho_layout:
  assumes entry: "0x100000000 \<le> entry_addr" "entry_addr < 0x100000000 + 2 ^ 64"
    and words: "\<forall>w\<in>set code. 0 \<le> w \<and> w < 2 ^ 32"
    and size: "int (length code) * 4 + 0x4000 < 2 ^ 64"
  shows "\<exists>pre. length pre = 280
           \<and> take 4 pre = [0xCF, 0xFA, 0xED, 0xFE]
           \<and> take 4 (drop 20 pre) = le_bytes 4 248
           \<and> take 8 (drop 264 pre) = le_bytes 8 (entry_addr - 0x100000000)
           \<and> write_macho code entry_addr \<lparr>data = [], pos = 0\<rparr>
               = Inr \<lparr>data = (if code = [] then pre
                               else pre @ replicate (0x4000 - 280) 0
                                    @ concat (map (le_bytes 4) code)),
                       pos = 0x4000 + 4 * length code\<rparr>"
proof -
  define text_size where "text_size = int (length code) * 4"
  define hdr where "hdr = concat
     [le_bytes 4 0xFEEDFACF, le_bytes 4 0x0100000C, le_bytes 4 0, le_bytes 4 2,
      le_bytes 4 3, le_bytes 4 0, le_bytes 4 0x00200085, le_bytes 4 0]"
  define cmds where "cmds = concat
     [le_bytes 4 0x19, le_bytes 4 72, map of_char ''__PAGEZERO'' @ replicate 6 0,
      le_bytes 8 0, le_bytes 8 0x100000000, le_bytes 8 0, le_bytes 8 0,
      le_bytes 4 0, le_bytes 4 0, le_bytes 4 0, le_bytes 4 0,
      le_bytes 4 0x19, le_bytes 4 152, map of_char ''__TEXT'' @ replicate 10 0,
      le_bytes 8 0x100000000, le_bytes 8 0x4000, le_bytes 8 0, le_bytes 8 (0x4000 + text_size),
      le_bytes 4 0x7, le_bytes 4 0x5, le_bytes 4 1, le_bytes 4 0,
      map of_char ''__text'' @ replicate 10 0, map of_char ''__TEXT'' @ replicate 10 0,
      le_bytes 8 0x100000000, le_bytes 8 text_size, le_bytes 4 0x4000, le_bytes 4 2,
      le_bytes 4 0, le_bytes 4 0, le_bytes 4 0x80000400, le_bytes 4 0, le_bytes 4 0,
      le_bytes 4 0,
      le_bytes 4 0x80000028, le_bytes 4 24]"
  define ent where "ent = le_bytes 8 (entry_addr - 0x100000000) @ le_bytes 8 0"
  have ts: "0 \<le> text_size" "text_size < 2 ^ 64" "0x4000 + text_size < 2 ^ 64"
    using size by (simp_all add: text_size_def)
  have len_hdr: "length hdr = 32"
    by (simp add: hdr_def length_le_bytes)
  have len_cmds: "length cmds = 232"
    by (simp add: cmds_def length_le_bytes)
  have len_ent: "length ent = 16"
    by (simp add: ent_def length_le_bytes)
  have s1: "write_all
         [pack_I 0xFEEDFACF, pack_I 0x0100000C, pack_I 0x00000000, pack_I 0x00000002,
          pack_I 3, pack_I 0, pack_I 0x00200085, pack_I 0] \<lparr>data = [], pos = 0\<rparr>
        = Inr \<lparr>data = hdr, pos = 32\<rparr>"
    using write_all_appends [of "\<lparr>data = [], pos = 0\<rparr>"
        "[le_bytes 4 0xFEEDFACF, le_bytes 4 0x0100000C, le_bytes 4 0, le_bytes 4 2,
          le_bytes 4 3, le_bytes 4 0, le_bytes 4 0x00200085, le_bytes 4 0]"]
    by (simp add: pack_I_ok hdr_def length_le_bytes)
  have s2: "write_all
         [pack_I 0x19, pack_I 72, name16 ''__PAGEZERO'',
          pack_Q 0, pack_Q 0x100000000, pack_Q 0, pack_Q 0,
          pack_I 0, pack_I 0, pack_I 0, pack_I 0,
          pack_I 0x19, pack_I 152, name16 ''__TEXT'',
          pack_Q 0x100000000, pack_Q 0x4000, pack_Q 0, pack_Q (int 0x4000 + text_size),
          pack_I 0x7, pack_I 0x5, pack_I 1, pack_I 0,
          name16 ''__text'', name16 ''__TEXT'',
          pack_Q 0x100000000, pack_Q text_size, pack_I (int 0x4000), pack_I 2,
          pack_I 0, pack_I 0, pack_I 0x80000400, pack_I 0, pack_I 0, pack_I 0,
          pack_I 0x80000028, pack_I 24, pack_Q (entry_addr - 0x100000000), pack_Q 0]
         \<lparr>data = hdr, pos = 32\<rparr>
        = Inr \<lparr>data = hdr @ cmds @ ent, pos = 280\<rparr>"
    using write_all_appends [of "\<lparr>data = hdr, pos = 32\<rparr>"
        "[le_bytes 4 0x19, le_bytes 4 72, map of_char ''__PAGEZERO'' @ replicate 6 0,
      le_bytes 8 0, le_bytes 8 0x100000000, le_bytes 8 0, le_bytes 8 0,
      le_bytes 4 0, le_bytes 4 0, le_bytes 4 0, le_bytes 4 0,
      le_bytes 4 0x19, le_bytes 4 152, map of_char ''__TEXT'' @ replicate 10 0,
      le_bytes 8 0x100000000, le_bytes 8 0x4000, le_bytes 8 0, le_bytes 8 (0x4000 + text_size),
      le_bytes 4 0x7, le_bytes 4 0x5, le_bytes 4 1, le_bytes 4 0,
      map of_char ''__text'' @ replicate 10 0, map of_char ''__TEXT'' @ replicate 10 0,
      le_bytes 8 0x100000000, le_bytes 8 text_size, le_bytes 4 0x4000, le_bytes 4 2,
      le_bytes 4 0, le_bytes 4 0, le_bytes 4 0x80000400, le_bytes 4 0, le_bytes 4 0,
      le_bytes 4 0,
      le_bytes 4 0x80000028, le_bytes 4 24,
      le_bytes 8 (entry_addr - 0x100000000), le_bytes 8 0]"]
      entry ts
    by (simp add: pack_I_ok pack_Q_ok name16_ok cmds_def ent_def len_hdr length_le_bytes)
  define pre where "pre = take 20 hdr @ le_bytes 4 248 @ drop 24 (hdr @ cmds @ ent)"
  have s3: "write_all [pack_I (int 280 - int 32)] (f_seek (32 - 12) \<lparr>data = hdr @ cmds @ ent, pos = 280\<rparr>)
        = Inr \<lparr>data = pre, pos = 24\<rparr>"
    by (simp add: pack_I_ok f_seek_def f_write_def pre_def len_hdr len_cmds len_ent
        length_le_bytes)
  have len_pre: "length pre = 280"
    by (simp add: pre_def len_hdr len_cmds len_ent length_le_bytes)
  have s4: "write_all (map pack_I code) (f_seek 0x4000 \<lparr>data = pre, pos = 24\<rparr>)
        = Inr \<lparr>data = (if code = [] then pre
                        else pre @ replicate (0x4000 - 280) 0 @ concat (map (le_bytes 4) code)),
                pos = 0x4000 + 4 * length code\<rparr>"
    using write_code [OF words, of pre "0x4000"] len_pre by (simp add: f_seek_def)
  have run: "write_macho code entry_addr \<lparr>data = [], pos = 0\<rparr>
        = Inr \<lparr>data = (if code = [] then pre
                        else pre @ replicate (0x4000 - 280) 0 @ concat (map (le_bytes 4) code)),
                pos = 0x4000 + 4 * length code\<rparr>"
    unfolding write_macho_def Let_def
    using s1 s2 s3 s4 by (simp add: and_then_def f_tell_def text_size_def)
  have magic: "take 4 pre = [0xCF, 0xFA, 0xED, 0xFE]"
    by (simp add: pre_def hdr_def length_le_bytes le_bytes_magic)
  have sizeofcmds: "take 4 (drop 20 pre) = le_bytes 4 248"
    by (simp add: pre_def len_hdr length_le_bytes)
  have "drop 264 pre = ent"
    by (simp add: pre_def len_hdr len_cmds length_le_bytes)
  then have entryoff: "take 8 (drop 264 pre) = le_bytes 8 (entry_addr - 0x100000000)"
    by (simp add: ent_def length_le_bytes)
  show ?thesis
    using len_pre magic sizeofcmds entryoff run by blast
qed

lemma write_all_stops:
  "pos f = length (data f) \<Longrightarrow>
   write_all (map Inr bss @ Inl e # rest) f
     = Inl (e, \<lparr>data = data f @ concat bss, pos = length (data f) + length (concat bss)\<rparr>)"
proof (induction bss arbitrary: f)
  case Nil
  then show ?case by simp
next
  case (Cons bs bss)
  have "f_write bs f = \<lparr>data = data f @ bs, pos = length (data f) + length bs\<rparr>"
    using Cons.prems by (simp add: f_write_def)
  then show ?case
    using Cons.IH [of "f_write bs f"] by simp
qed

lemma write_macho_entry_below_text:
  assumes entry: "entry_addr < 0x100000000"
    and size: "int (length code) * 4 + 0x4000 < 2 ^ 64"
  shows "\<exists>f'. write_macho code entry_addr \<lparr>data = [], pos = 0\<rparr> = Inl (StructError, f')
              \<and> length (data f') = 264"
proof -
  define text_size where "text_size = int (length code) * 4"
  define hdr where "hdr = concat
     [le_bytes 4 0xFEEDFACF, le_bytes 4 0x0100000C, le_bytes 4 0, le_bytes 4 2,
      le_bytes 4 3, le_bytes 4 0, le_bytes 4 0x00200085, le_bytes 4 0]"
  define items where "items =
     [le_bytes 4 0x19, le_bytes 4 72, map of_char ''__PAGEZERO'' @ replicate 6 0,
      le_bytes 8 0, le_bytes 8 0x100000000, le_bytes 8 0, le_bytes 8 0,
      le_bytes 4 0, le_bytes 4 0, le_bytes 4 0, le_bytes 4 0,
      le_bytes 4 0x19, le_bytes 4 152, map of_char ''__TEXT'' @ replicate 10 0,
      le_bytes 8 0x100000000, le_bytes 8 0x4000, le_bytes 8 0, le_bytes 8 (0x4000 + text_size),
      le_bytes 4 0x7, le_bytes 4 0x5, le_bytes 4 1, le_bytes 4 0,
      map of_char ''__text'' @ replicate 10 0, map of_char ''__TEXT'' @ replicate 10 0,
      le_bytes 8 0x100000000, le_bytes 8 text_size, le_bytes 4 0x4000, le_bytes 4 2,
      le_bytes 4 0, le_bytes 4 0, le_bytes 4 0x80000400, le_bytes 4 0, le_bytes 4 0,
      le_bytes 4 0,
      le_bytes 4 0x80000028, le_bytes 4 24]"
  have ts: "0 \<le> text_size" "text_size < 2 ^ 64" "0x4000 + text_size < 2 ^ 64"
    using size by (simp_all add: text_size_def)
  have len_hdr: "length hdr = 32"
    by (simp add: hdr_def length_le_bytes)
  have len_items: "length (concat items) = 232"
    by (simp add: items_def length_le_bytes)
  have neg: "pack_Q (entry_addr - 0x100000000) = Inl StructError"
    using entry by (simp add: pack_Q_fails)
  have s1: "write_all
         [pack_I 0xFEEDFACF, pack_I 0x0100000C, pack_I 0x00000000, pack_I 0x00000002,
          pack_I 3, pack_I 0, pack_I 0x00200085, pack_I 0] \<lparr>data = [], pos = 0\<rparr>
        = Inr \<lparr>data = hdr, pos = 32\<rparr>"
    using write_all_appends [of "\<lparr>data = [], pos = 0\<rparr>"
        "[le_bytes 4 0xFEEDFACF, le_bytes 4 0x0100000C, le_bytes 4 0, le_bytes 4 2,
          le_bytes 4 3, le_bytes 4 0, le_bytes 4 0x00200085, le_bytes 4 0]"]
    by (simp add: pack_I_ok hdr_def length_le_bytes)
  have s2: "write_all
         [pack_I 0x19, pack_I 72, name16 ''__PAGEZERO'',
          pack_Q 0, pack_Q 0x100000000, pack_Q 0, pack_Q 0,
          pack_I 0, pack_I 0, pack_I 0, pack_I 0,
          pack_I 0x19, pack_I 152, name16 ''__TEXT'',
          pack_Q 0x100000000, pack_Q 0x4000, pack_Q 0, pack_Q (int 0x4000 + text_size),
          pack_I 0x7, pack_I 0x5, pack_I 1, pack_I 0,
          name16 ''__text'', name16 ''__TEXT'',
          pack_Q 0x100000000, pack_Q text_size, pack_I (int 0x4000), pack_I 2,
          pack_I 0, pack_I 0, pack_I 0x80000400, pack_I 0, pack_I 0, pack_I 0,
          pack_I 0x80000028, pack_I 24, pack_Q (entry_addr - 0x100000000), pack_Q 0]
         \<lparr>data = hdr, pos = 32\<rparr>
        = Inl (StructError, \<lparr>data = hdr @ concat items, pos = 264\<rparr>)"
    using write_all_stops [of "\<lparr>data = hdr, pos = 32\<rparr>" items StructError "[pack_Q 0]"]
      ts neg
    by (simp add: pack_I_ok pack_Q_ok name16_ok len_hdr len_items) (simp add: items_def)
  have "write_macho code entry_addr \<lparr>data = [], pos = 0\<rparr>
        = Inl (StructError, \<lparr>data = hdr @ concat items, pos = 264\<rparr>)"
    unfolding write_macho_def Let_def
    using s1 s2 by (simp add: and_then_def f_tell_def text_size_def)
  then show ?thesis
    using len_hdr len_items by simp
qed

text \<open>
  C7, as the code has it. The claim speaks of every run with a non-empty buffer and a
  defined entry label. \<open>generate_macho\<close> takes the code segment's base as the constant
  \<open>0x100000000\<close>, whatever base the source was assembled at: with \<open>_start: / nop\<close>
  assembled at base 0 the entry offset is negative, \<open>struct.pack('<Q', ...)\<close> raises, and
  the file is left with 264 bytes: no entry-offset field and nothing at \<open>0x4000\<close>.
\<close>

theorem entry_below_text_base_raises:
  "run_result (assemble (''_start:'' @ [CHR 0x0A] @ ''nop'') 0 new_assembler)
     = Inr ([0xD503201F], [], [])
   \<and> fst (main (''_start:'' @ [CHR 0x0A] @ ''nop'') 0 ''a.out'' ''_start''
              \<lparr>files = Map.empty, writable = (\<lambda>p. True)\<rparr>) = Some StructError
   \<and> map_option length
        (files (snd (main (''_start:'' @ [CHR 0x0A] @ ''nop'') 0 ''a.out'' ''_start''
                       \<lparr>files = Map.empty, writable = (\<lambda>p. True)\<rparr>)) ''a.out'')
       = Some 264"
proof -
  let ?src = "''_start:'' @ [CHR 0x0A] @ ''nop''"
  have r: "run_result (assemble ?src 0 new_assembler) = Inr ([0xD503201F], [], [])"
    by code_simp
  have "case assemble ?src 0 new_assembler of
          Inl e \<Rightarrow> False | Inr st \<Rightarrow> labels st ''_start'' = Some 0"
    by code_simp
  then obtain st where st: "assemble ?src 0 new_assembler = Inr st"
    and entry: "labels st ''_start'' = Some 0"
    by (auto split: sum.splits)
  have code: "machine_code st = [0xD503201F]"
    using r st by (simp add: run_result_def)
  obtain f' where f': "write_macho (machine_code st) 0 \<lparr>data = [], pos = 0\<rparr>
                        = Inl (StructError, f')" "length (data f') = 264"
    using write_macho_entry_below_text [of 0 "machine_code st"] code by auto
  have "main ?src 0 ''a.out'' ''_start'' \<lparr>files = Map.empty, writable = (\<lambda>p. True)\<rparr>
        = (Some StructError, \<lparr>files = [''a.out'' \<mapsto> data f'], writable = (\<lambda>p. True)\<rparr>)"
    using st entry f'(1) by (simp add: main_def generate_macho_def)
  then show ?thesis
    using r f'(2) by simp
qed

text \<open>
  C7, amended. When the entry label is defined at an address from \<open>0x100000000\<close> up to
  less than \<open>2^64\<close> above it, the buffer is non-empty, every word fits 32 bits, the size
  fields fit 64 bits and the output path can be opened, \<open>generate_macho\<close> returns and the
  file begins with \<open>CF FA ED FE\<close>; its \<open>sizeofcmds\<close> field is 248, so the load commands end
  at byte 280; every byte from 280 up to \<open>0x4000\<close> is zero; the code stream, each word as
  four little-endian bytes, is the rest of the file from \<open>0x4000\<close>; and the entry-offset
  field, at byte 264, holds the entry address minus \<open>0x100000000\<close>.
\<close>

theorem generate_macho_layout:
  assumes "labels st entry_point = Some entry_addr"
    and "machine_code st \<noteq> []"
    and "writable fs output_file"
    and "0x100000000 \<le> entry_addr" and "entry_addr < 0x100000000 + 2 ^ 64"
    and "\<forall>w\<in>set (machine_code st). 0 \<le> w \<and> w < 2 ^ 32"
    and "int (length (machine_code st)) * 4 + 0x4000 < 2 ^ 64"
  shows "\<exists>d. generate_macho output_file entry_point st fs
               = (None, fs\<lparr>files := (files fs)(output_file \<mapsto> d)\<rparr>)
             \<and> take 4 d = [0xCF, 0xFA, 0xED, 0xFE]
             \<and> take 4 (drop 20 d) = le_bytes 4 248
             \<and> (\<forall>i. 280 \<le> i \<and> i < 0x4000 \<longrightarrow> d ! i = 0)
             \<and> drop 0x4000 d = concat (map (le_bytes 4) (machine_code st))
             \<and> take 8 (drop 264 d) = le_bytes 8 (entry_addr - 0x100000000)"
proof -
  let ?code = "machine_code st"
  obtain pre where pre: "length pre = 280" "take 4 pre = [0xCF, 0xFA, 0xED, 0xFE]"
    "take 4 (drop 20 pre) = le_bytes 4 248"
    "take 8 (drop 264 pre) = le_bytes 8 (entry_addr - 0x100000000)"
    and run: "write_macho ?code entry_addr \<lparr>data = [], pos = 0\<rparr>
               = Inr \<lparr>data = pre @ replicate (0x4000 - 280) 0 @ concat (map (le_bytes 4) ?code),
                       pos = 0x4000 + 4 * length ?code\<rparr>"
    using write_macho_layout [OF assms(4,5,6,7)] assms(2) by auto
  let ?d = "pre @ replicate (0x4000 - 280) 0 @ concat (map (le_bytes 4) ?code)"
  have g: "generate_macho output_file entry_point st fs
           = (None, fs\<lparr>files := (files fs)(output_file \<mapsto> ?d)\<rparr>)"
    using assms(1,3) run by (simp add: generate_macho_def)
  have a: "take 4 ?d = [0xCF, 0xFA, 0xED, 0xFE]"
    using pre(1,2) by simp
  have b: "take 4 (drop 20 ?d) = le_bytes 4 248"
    using pre(1,3) by simp
  have c: "\<forall>i. 280 \<le> i \<and> i < 0x4000 \<longrightarrow> ?d ! i = 0"
    using pre(1) by (auto simp add: nth_append)
  have e: "drop 0x4000 ?d = concat (map (le_bytes 4) ?code)"
    using pre(1) by simp
  have f: "take 8 (drop 264 ?d) = le_bytes 8 (entry_addr - 0x100000000)"
    using pre(1,4) by simp
  show ?thesis
    using g a b c e f by blast
qed

theorem generate_macho_layout_witness:
  "(let S = new_assembler\<lparr>labels := (labels new_assembler)(''_start'' \<mapsto> 0x100000000),
                             machine_code := [0xD503201F]\<rparr>;
        F = \<lparr>files = Map.empty, writable = (\<lambda>p. True)\<rparr>
    in labels S ''_start'' = Some 0x100000000
       \<and> machine_code S \<noteq> []
       \<and> writable F ''a.out''
       \<and> (\<exists>d. generate_macho ''a.out'' ''_start'' S F
                 = (None, F\<lparr>files := (files F)(''a.out'' \<mapsto> d)\<rparr>)
               \<and> take 4 d = [0xCF, 0xFA, 0xED, 0xFE]
               \<and> take 4 (drop 20 d) = le_bytes 4 248
               \<and> (\<forall>i. 280 \<le> i \<and> i < 0x4000 \<longrightarrow> d ! i = 0)
               \<and> drop 0x4000 d = concat (map (le_bytes 4) (machine_code S))
               \<and> take 8 (drop 264 d) = le_bytes 8 (0x100000000 - 0x100000000)))"
proof -
  define S where "S = new_assembler\<lparr>labels := (labels new_assembler)(''_start'' \<mapsto> 0x100000000),
                                      machine_code := [0xD503201F]\<rparr>"
  define F where "F = \<lparr>files = Map.empty, writable = (\<lambda>p::string. True)\<rparr>"
  have h1: "labels S ''_start'' = Some 0x100000000"
    by (simp add: S_def)
  have h2: "machine_code S \<noteq> []"
    by (simp add: S_def)
  have h3: "writable F ''a.out''"
    by (simp add: F_def)
  have h4: "(0x100000000::int) \<le> 0x100000000"
    by simp
  have h5: "(0x100000000::int) < 0x100000000 + 2 ^ 64"
    by simp
  have h6: "\<forall>w\<in>set (machine_code S). 0 \<le> w \<and> w < 2 ^ 32"
    by (simp add: S_def)
  have h7: "int (length (machine_code S)) * 4 + 0x4000 < 2 ^ 64"
    by (simp add: S_def)
  note t = generate_macho_layout [OF h1 h2 h3 h4 h5 h6 h7]
  have "labels S ''_start'' = Some 0x100000000
       \<and> machine_code S \<noteq> []
       \<and> writable F ''a.out''
       \<and> (\<exists>d. generate_macho ''a.out'' ''_start'' S F
                 = (None, F\<lparr>files := (files F)(''a.out'' \<mapsto> d)\<rparr>)
               \<and> take 4 d = [0xCF, 0xFA, 0xED, 0xFE]
               \<and> take 4 (drop 20 d) = le_bytes 4 248
               \<and> (\<forall>i. 280 \<le> i \<and> i < 0x4000 \<longrightarrow> d ! i = 0)
               \<and> drop 0x4000 d = concat (map (le_bytes 4) (machine_code S))
               \<and> take 8 (drop 264 d) = le_bytes 8 (0x100000000 - 0x100000000))"
    using h1 h2 h3 t by blast
  then show ?thesis
    unfolding Let_def S_def F_def .
qed

end
